(* ===== verification/Prelude.thy ===== *)
theory Prelude
  imports Complex_Main "HOL-Library.AList" "HOL-Library.Multiset"
begin

text \<open>
  Generic material shared by the theories of the development: the collection
  \<open>nan_simps\<close> of the closed forms of the numpy reductions (filled by \<open>Numpy\<close>: the
  maximum and minimum as \<open>Max\<close>/\<open>Min\<close>, \<open>int()\<close> of a whole number), and facts on lists, sums, sets and sum types that the
  component proofs use and that say nothing about the program.
\<close>

named_theorems nan_simps "evaluation rules of the modelled numpy reductions"

section \<open>Quotients of integers\<close>

lemma floor_quot [simp]: "\<lfloor>(of_int a / of_nat n :: rat)\<rfloor> = a div int n"
  using floor_divide_of_int_eq [of a "int n", where 'a = rat] by simp

lemma ceiling_quot: "\<lceil>(of_int a / of_nat n :: rat)\<rceil> = - ((- a) div int n)"
proof -
  have "\<lceil>(of_int a / of_nat n :: rat)\<rceil> = - \<lfloor>of_int (- a) / of_nat n :: rat\<rfloor>"
    by (simp add: ceiling_def)
  then show ?thesis by (simp only: floor_quot)
qed

lemma quot_gap:
  assumes n: "0 < n" and ni: "(of_int a / of_nat n :: rat) \<noteq> of_int \<lfloor>of_int a / of_nat n :: rat\<rfloor>"
  shows "of_int \<lfloor>of_int a / of_nat n :: rat\<rfloor> + 1 / of_nat n \<le> (of_int a / of_nat n :: rat)"
    and "(of_int a / of_nat n :: rat) + 1 / of_nat n \<le> of_int \<lfloor>of_int a / of_nat n :: rat\<rfloor> + 1"
proof -
  let ?k = "a div int n" and ?r = "a mod int n"
  have fl: "\<lfloor>of_int a / of_nat n :: rat\<rfloor> = ?k" by simp
  have a: "a = int n * ?k + ?r" by simp
  have r0: "0 \<le> ?r" "?r < int n" using n by simp_all
  have "?r \<noteq> 0"
  proof
    assume "?r = 0"
    then have "a = int n * ?k" using a by simp
    then have "(of_int a :: rat) = of_nat n * of_int ?k" by (metis of_int_mult of_int_of_nat_eq)
    then have "(of_int a / of_nat n :: rat) = of_int ?k" using n by simp
    with ni fl show False by simp
  qed
  with r0 have r1: "1 \<le> ?r" "?r + 1 \<le> int n" by simp_all
  have "(of_int a :: rat) = of_nat n * of_int ?k + of_int ?r"
    by (metis a of_int_add of_int_mult of_int_of_nat_eq)
  then have q: "(of_int a / of_nat n :: rat) = of_int ?k + of_int ?r / of_nat n"
    using n by (simp add: field_simps)
  have "(1::rat) / of_nat n \<le> of_int ?r / of_nat n"
    using r1 n by (simp add: divide_right_mono)
  then show "of_int \<lfloor>of_int a / of_nat n :: rat\<rfloor> + 1 / of_nat n \<le> (of_int a / of_nat n :: rat)"
    by (simp only: fl q) simp
  have "of_int ?r / of_nat n + 1 / of_nat n \<le> (1::rat)"
    using r1 n by (simp add: field_simps)
  then show "(of_int a / of_nat n :: rat) + 1 / of_nat n \<le> of_int \<lfloor>of_int a / of_nat n :: rat\<rfloor> + 1"
    by (simp only: fl q) simp
qed

lemma quot_err_small:
  assumes n: "0 < n" and aq: "\<bar>of_int a :: rat\<bar> < 2 ^ 53"
  shows "\<bar>of_int a / of_nat n :: rat\<bar> / 2 ^ 53 < 1 / of_nat n"
proof -
  have e: "\<bar>of_int a / of_nat n :: rat\<bar> / 2 ^ 53 = (\<bar>of_int a\<bar> / 2 ^ 53) / of_nat n"
    by (simp add: abs_divide divide_divide_eq_left mult.commute)
  have "\<bar>of_int a :: rat\<bar> / 2 ^ 53 < 1" using aq by simp
  then have "(\<bar>of_int a :: rat\<bar> / 2 ^ 53) / of_nat n < 1 / of_nat n"
    by (rule divide_strict_right_mono) (simp add: n)
  with e show ?thesis by simp
qed

lemma quot_le_abs:
  assumes n: "0 < n"
  shows "\<bar>of_int a / of_nat n :: rat\<bar> \<le> \<bar>of_int a\<bar>"
proof -
  have n1: "(1::rat) \<le> of_nat n" using n by (metis of_nat_1 of_nat_le_iff Suc_leI One_nat_def)
  have "\<bar>of_int a :: rat\<bar> / of_nat n \<le> \<bar>of_int a\<bar> / 1"
    by (rule divide_left_mono) (use n1 in auto)
  then show ?thesis by (simp add: abs_divide)
qed

section \<open>Sums, extremes and lists read by index\<close>

lemma sum_list_lower: "(\<forall>x\<in>set xs. m \<le> x) \<Longrightarrow> int (length xs) * m \<le> sum_list xs"
  by (induction xs) (auto simp: algebra_simps)

lemma sum_list_upper: "(\<forall>x\<in>set xs. x \<le> m) \<Longrightarrow> sum_list xs \<le> int (length xs) * m"
  by (induction xs) (auto simp: algebra_simps)

lemma Max_UN_Max:
  assumes "finite I" "I \<noteq> {}" "\<And>i. i \<in> I \<Longrightarrow> finite (A i) \<and> A i \<noteq> {}"
  shows "Max (\<Union>i\<in>I. A i) = Max ((\<lambda>i. Max (A i)) ` I)"
proof (rule antisym)
  have fin: "finite (\<Union>i\<in>I. A i)" using assms by auto
  show "Max (\<Union>i\<in>I. A i) \<le> Max ((\<lambda>i. Max (A i)) ` I)"
  proof (rule Max.boundedI)
    show "\<Union> (A ` I) \<noteq> {}" using assms by auto
    fix a assume "a \<in> (\<Union>i\<in>I. A i)"
    then obtain i where i: "i \<in> I" and a: "a \<in> A i" by blast
    have "a \<le> Max (A i)" using assms i a by auto
    also have "Max (A i) \<le> Max ((\<lambda>i. Max (A i)) ` I)" using assms i by auto
    finally show "a \<le> Max ((\<lambda>i. Max (A i)) ` I)" .
  qed (use fin in auto)
  show "Max ((\<lambda>i. Max (A i)) ` I) \<le> Max (\<Union>i\<in>I. A i)"
  proof (rule Max.boundedI)
    show "finite ((\<lambda>i. Max (A i)) ` I)" "(\<lambda>i. Max (A i)) ` I \<noteq> {}" using assms by auto
    show "\<And>m. m \<in> (\<lambda>i. Max (A i)) ` I \<Longrightarrow> m \<le> Max (\<Union>i\<in>I. A i)"
      using assms fin by (auto intro: Max_mono)
  qed
qed

lemma Min_UN_Min:
  assumes "finite I" "I \<noteq> {}" "\<And>i. i \<in> I \<Longrightarrow> finite (A i) \<and> A i \<noteq> {}"
  shows "Min (\<Union>i\<in>I. A i) = Min ((\<lambda>i. Min (A i)) ` I)"
proof (rule antisym)
  have fin: "finite (\<Union>i\<in>I. A i)" using assms by auto
  show "Min ((\<lambda>i. Min (A i)) ` I) \<le> Min (\<Union>i\<in>I. A i)"
    using assms by (auto simp: Min_le_iff Min_ge_iff)
  show "Min (\<Union>i\<in>I. A i) \<le> Min ((\<lambda>i. Min (A i)) ` I)"
  proof (rule Min.boundedI)
    show "finite ((\<lambda>i. Min (A i)) ` I)" "(\<lambda>i. Min (A i)) ` I \<noteq> {}" using assms by auto
    show "\<And>m. m \<in> (\<lambda>i. Min (A i)) ` I \<Longrightarrow> Min (\<Union>i\<in>I. A i) \<le> m"
      using assms fin by (auto intro: Min_antimono)
  qed
qed

lemma set_map_nth: "set (map f xs) = (\<lambda>i. f (xs ! i)) ` {..<length xs}"
  by (auto simp: in_set_conv_nth image_iff) (blast intro: nth_mem)

lemma not_isl_Inr_projr: "\<not> isl x \<Longrightarrow> x = Inr (projr x)"
  by (cases x) simp_all

end
