(* ===== verification/Numpy.thy ===== *)
theory Numpy
  imports Prelude
begin

text \<open>
  The Python and numpy primitives \<open>school_data.py\<close> relies on: the exceptions it can raise, the
  error-propagating bind that models "the first raise wins", the cell type of the
  enrollment array (a whole number, or numpy's NaN as \<open>None\<close>), Python list indexing, and
  the numpy reductions the program calls (\<open>nansum\<close>, \<open>nanmean\<close>, \<open>nanmax\<close>,
  \<open>nanmin\<close>, \<open>mean\<close>, \<open>floor\<close>) together with Python's \<open>int()\<close> on a float.
  Floats are modelled by exact rationals: the program's values are whole enrollment
  counts, and the lemma \<open>nanmean_float_exact\<close> shows that the float64 rounding of a mean
  never changes its \<open>int()\<close> or \<open>floor\<close> (header of Spec2Isabelle).
\<close>

section \<open>Errors\<close>

text \<open>The exceptions of \<open>school_data.py\<close> and of the numpy calls it makes.\<close>

datatype error =
    InvalidSchool        \<comment> \<open>\<open>ValueError("Please enter a valid school name or code.")\<close>\<close>
  | ShapeError nat       \<comment> \<open>\<open>reshape\<close>: cannot reshape an array of this size\<close>
  | IndexError           \<comment> \<open>an index out of range\<close>
  | NaNToInt             \<comment> \<open>\<open>int(nan)\<close>: ValueError, cannot convert float NaN\<close>
  | MaskedToInt          \<comment> \<open>\<open>int(np.ma.masked)\<close>: MaskError\<close>
  | EOFError             \<comment> \<open>\<open>input()\<close> at the end of the input\<close>

type_synonym 'a result = "error + 'a"

definition bindE :: "'a result \<Rightarrow> ('a \<Rightarrow> 'b result) \<Rightarrow> 'b result" where
  "bindE m f = (case m of Inl e \<Rightarrow> Inl e | Inr x \<Rightarrow> f x)"

section \<open>Python list indexing\<close>

text \<open>\<open>xs[i]\<close>: a negative index counts from the end; out of range raises IndexError.\<close>

definition py_index :: "'a list \<Rightarrow> int \<Rightarrow> 'a result" where
  "py_index xs i =
     (if 0 \<le> i then (if nat i < length xs then Inr (xs ! nat i) else Inl IndexError)
      else if nat (- i) \<le> length xs then Inr (xs ! (length xs - nat (- i)))
      else Inl IndexError)"

section \<open>Cells and the numpy reductions\<close>

text \<open>A cell of the float array: \<open>Some n\<close> for a whole number, \<open>None\<close> for NaN.\<close>

type_synonym cell = "int option"

text \<open>The non-NaN values of a sequence of cells, in order.\<close>

primrec present :: "cell list \<Rightarrow> int list" where
  "present [] = []"
| "present (c # cs) = (case c of None \<Rightarrow> present cs | Some x \<Rightarrow> x # present cs)"

text \<open>\<open>np.nansum\<close>: NaN cells count as zero; an all-NaN sequence sums to 0.\<close>

definition nansum :: "cell list \<Rightarrow> int" where
  "nansum cs = sum_list (present cs)"

text \<open>
  \<open>np.nanmean\<close> and \<open>mean\<close> of a float sequence, \<open>None\<close> standing for the NaN they
  return: \<open>nanmean\<close> skips NaN and is NaN when nothing is left; the plain \<open>mean\<close>
  is NaN as soon as one cell is, and on an empty sequence.
\<close>

definition mean_of :: "int list \<Rightarrow> rat" where
  "mean_of xs = of_int (sum_list xs) / of_nat (length xs)"

definition nanmean :: "cell list \<Rightarrow> rat option" where
  "nanmean cs = (let xs = present cs in if xs = [] then None else Some (mean_of xs))"

definition plain_mean :: "cell list \<Rightarrow> rat option" where
  "plain_mean cs = (if cs = [] \<or> None \<in> set cs then None else Some (mean_of (present cs)))"

text \<open>
  \<open>np.nanmax\<close> and \<open>np.nanmin\<close>: numpy reduces left to right, skipping NaN; the result
  is NaN (here \<open>None\<close>) when every cell is NaN.
\<close>

fun nanmax_acc :: "int option \<Rightarrow> cell list \<Rightarrow> int option" where
  "nanmax_acc acc [] = acc"
| "nanmax_acc acc (None # cs) = nanmax_acc acc cs"
| "nanmax_acc acc (Some x # cs) =
     nanmax_acc (Some (case acc of None \<Rightarrow> x | Some m \<Rightarrow> max m x)) cs"

fun nanmin_acc :: "int option \<Rightarrow> cell list \<Rightarrow> int option" where
  "nanmin_acc acc [] = acc"
| "nanmin_acc acc (None # cs) = nanmin_acc acc cs"
| "nanmin_acc acc (Some x # cs) =
     nanmin_acc (Some (case acc of None \<Rightarrow> x | Some m \<Rightarrow> min m x)) cs"

definition nanmax :: "cell list \<Rightarrow> int option" where
  "nanmax cs = nanmax_acc None cs"

definition nanmin :: "cell list \<Rightarrow> int option" where
  "nanmin cs = nanmin_acc None cs"

section \<open>From floats to Python ints\<close>

text \<open>\<open>int(x)\<close> on a float truncates towards zero and raises on NaN.\<close>

definition trunc_rat :: "rat \<Rightarrow> int" where
  "trunc_rat q = (if 0 \<le> q then \<lfloor>q\<rfloor> else \<lceil>q\<rceil>)"

definition py_int :: "rat option \<Rightarrow> int result" where
  "py_int v = (case v of None \<Rightarrow> Inl NaNToInt | Some q \<Rightarrow> Inr (trunc_rat q))"

text \<open>\<open>np.floor\<close> keeps NaN and rounds a number down.\<close>

definition np_floor :: "rat option \<Rightarrow> rat option" where
  "np_floor v = map_option (\<lambda>q. of_int \<lfloor>q\<rfloor>) v"

section \<open>Float rounding\<close>

text \<open>
  A float64 result \<open>q\<close> of an exact value \<open>x\<close>, as round-to-nearest gives it: an integer
  of magnitude at most \<open>2^53\<close> is representable and is returned exactly, and any other
  result is within a relative error of \<open>2^-53\<close> (the unit roundoff of binary64).
\<close>

definition fp_rounded :: "rat \<Rightarrow> rat \<Rightarrow> bool" where
  "fp_rounded x q \<longleftrightarrow>
     (x = of_int \<lfloor>x\<rfloor> \<and> \<bar>x\<bar> \<le> 2 ^ 53 \<longrightarrow> q = x) \<and> \<bar>q - x\<bar> \<le> \<bar>x\<bar> / 2 ^ 53"

section \<open>Lemmas\<close>

lemma bindE_Inl [simp]: "bindE (Inl e) f = Inl e"
  by (simp add: bindE_def)

lemma bindE_Inr [simp]: "bindE (Inr x) f = f x"
  by (simp add: bindE_def)

lemma bindE_eq_Inr_iff:
  "bindE m f = Inr y \<longleftrightarrow> (\<exists>x. m = Inr x \<and> f x = Inr y)"
  by (cases m) auto

lemma bindE_eq_Inl_iff:
  "bindE m f = Inl e \<longleftrightarrow> m = Inl e \<or> (\<exists>x. m = Inr x \<and> f x = Inl e)"
  by (cases m) auto

lemma py_index_nat [simp]:
  "py_index xs (int k) = (if k < length xs then Inr (xs ! k) else Inl IndexError)"
  by (simp add: py_index_def)

lemma py_index_Inr:
  "py_index xs i = Inr x \<Longrightarrow> x \<in> set xs"
  by (auto simp: py_index_def split: if_splits)

lemma present_append [simp]: "present (xs @ ys) = present xs @ present ys"
  by (induction xs) (auto split: option.splits)

lemma in_set_present [simp]: "x \<in> set (present cs) \<longleftrightarrow> Some x \<in> set cs"
  by (induction cs) (auto split: option.splits)

lemma present_map_Some [simp]: "present (map Some xs) = xs"
  by (induction xs) auto

lemma present_replicate [simp]:
  "present (replicate n (Some x)) = replicate n x" "present (replicate n None) = []"
  by (induction n) auto

lemma present_Nil_iff: "present cs = [] \<longleftrightarrow> (\<forall>c\<in>set cs. c = None)"
  by (induction cs) (auto split: option.splits)

lemma present_Nil_if_no_None: "None \<notin> set cs \<Longrightarrow> present cs = [] \<longleftrightarrow> cs = []"
  by (induction cs) (auto split: option.splits)

lemma length_present_le: "length (present cs) \<le> length cs"
  by (induction cs) (auto split: option.splits)

lemma length_present_eq_iff: "length (present cs) = length cs \<longleftrightarrow> None \<notin> set cs"
proof (induction cs)
  case Nil
  then show ?case by simp
next
  case (Cons c cs)
  then show ?case
    using length_present_le [of cs] by (auto split: option.splits)
qed

lemma nansum_append [simp]: "nansum (xs @ ys) = nansum xs + nansum ys"
  by (simp add: nansum_def)

lemma nansum_Nil [simp]: "nansum [] = 0"
  by (simp add: nansum_def)

lemma nansum_Cons [simp]:
  "nansum (c # cs) = (case c of None \<Rightarrow> 0 | Some x \<Rightarrow> x) + nansum cs"
  by (simp add: nansum_def split: option.splits)

lemma plain_mean_eq_nanmean:
  "None \<notin> set cs \<Longrightarrow> plain_mean cs = nanmean cs"
  using present_Nil_if_no_None [of cs]
  by (auto simp: plain_mean_def nanmean_def Let_def)

text \<open>The loops compute the maximum and minimum of the non-NaN values.\<close>

lemma present_None_Cons: "present (None # cs) = present cs"
  by simp

lemma nanmax_acc_Max:
  "nanmax_acc acc cs =
     (if present cs = [] then acc
      else Some (case acc of None \<Rightarrow> Max (set (present cs))
                 | Some m \<Rightarrow> max m (Max (set (present cs)))))"
proof (induction acc cs rule: nanmax_acc.induct)
  case (1 acc)
  then show ?case by simp
next
  case (2 acc cs)
  then show ?case by (simp only: nanmax_acc.simps present_None_Cons)
next
  case (3 acc x cs)
  then show ?case
    by (cases "present cs = []") (simp_all add: max.assoc split: option.splits)
qed

lemma nanmin_acc_Min:
  "nanmin_acc acc cs =
     (if present cs = [] then acc
      else Some (case acc of None \<Rightarrow> Min (set (present cs))
                 | Some m \<Rightarrow> min m (Min (set (present cs)))))"
proof (induction acc cs rule: nanmin_acc.induct)
  case (1 acc)
  then show ?case by simp
next
  case (2 acc cs)
  then show ?case by (simp only: nanmin_acc.simps present_None_Cons)
next
  case (3 acc x cs)
  then show ?case
    by (cases "present cs = []") (simp_all add: min.assoc split: option.splits)
qed

lemma nanmax_eq [nan_simps]:
  "nanmax cs = (if present cs = [] then None else Some (Max (set (present cs))))"
  by (simp add: nanmax_def nanmax_acc_Max)

lemma nanmin_eq [nan_simps]:
  "nanmin cs = (if present cs = [] then None else Some (Min (set (present cs))))"
  by (simp add: nanmin_def nanmin_acc_Min)

lemma nanmax_None_iff: "nanmax cs = None \<longleftrightarrow> present cs = []"
  by (simp add: nanmax_eq)

lemma nanmin_None_iff: "nanmin cs = None \<longleftrightarrow> present cs = []"
  by (simp add: nanmin_eq)

lemma nanmax_ge: "nanmax cs = Some m \<Longrightarrow> Some x \<in> set cs \<Longrightarrow> x \<le> m"
  by (auto simp: nanmax_eq split: if_splits intro!: Max_ge)

lemma nanmin_le: "nanmin cs = Some m \<Longrightarrow> Some x \<in> set cs \<Longrightarrow> m \<le> x"
  by (auto simp: nanmin_eq split: if_splits intro!: Min_le)

lemma nanmax_attained: "nanmax cs = Some m \<Longrightarrow> Some m \<in> set cs"
proof -
  assume "nanmax cs = Some m"
  then have ne: "present cs \<noteq> []" and m: "m = Max (set (present cs))"
    by (auto simp: nanmax_eq split: if_splits)
  from ne have "Max (set (present cs)) \<in> set (present cs)"
    by (intro Max_in) auto
  with m show ?thesis by (simp only: in_set_present)
qed

lemma nanmin_attained: "nanmin cs = Some m \<Longrightarrow> Some m \<in> set cs"
proof -
  assume "nanmin cs = Some m"
  then have ne: "present cs \<noteq> []" and m: "m = Min (set (present cs))"
    by (auto simp: nanmin_eq split: if_splits)
  from ne have "Min (set (present cs)) \<in> set (present cs)"
    by (intro Min_in) auto
  with m show ?thesis by (simp only: in_set_present)
qed

lemma py_int_None [simp]: "py_int None = Inl NaNToInt"
  by (simp add: py_int_def)

lemma py_int_Some [simp]: "py_int (Some q) = Inr (trunc_rat q)"
  by (simp add: py_int_def)

lemma np_floor_simps [simp]:
  "np_floor None = None" "np_floor (Some q) = Some (of_int \<lfloor>q\<rfloor>)"
  by (simp_all add: np_floor_def)

lemma trunc_rat_quot [simp]:
  "trunc_rat (of_int a / of_nat n) = (if 0 \<le> a then a div int n else - ((- a) div int n))"
proof (cases "n = 0")
  case True
  then show ?thesis by (simp add: trunc_rat_def)
next
  case False
  then have pos: "(0::rat) < of_nat n" by simp
  have "0 \<le> (of_int a / of_nat n :: rat) \<longleftrightarrow> 0 \<le> a"
    using pos by (simp add: zero_le_divide_iff)
  then show ?thesis by (simp add: trunc_rat_def ceiling_quot)
qed

lemma trunc_rat_of_int [simp]: "trunc_rat (of_int k) = k"
  by (simp add: trunc_rat_def)

lemma py_int_of_int [nan_simps]: "py_int (map_option of_int v) = (case v of None \<Rightarrow> Inl NaNToInt | Some x \<Rightarrow> Inr x)"
  by (cases v) auto

lemma trunc_rat_bounds:
  "of_int lo \<le> q \<Longrightarrow> q \<le> of_int hi \<Longrightarrow> lo \<le> trunc_rat q \<and> trunc_rat q \<le> hi"
proof -
  assume lo: "of_int lo \<le> q" and hi: "q \<le> of_int hi"
  have "lo \<le> \<lfloor>q\<rfloor>" "\<lfloor>q\<rfloor> \<le> hi" "lo \<le> \<lceil>q\<rceil>" "\<lceil>q\<rceil> \<le> hi"
    using lo hi by (simp_all add: le_floor_iff ceiling_le_iff floor_le_iff le_ceiling_iff)
  then show ?thesis by (simp add: trunc_rat_def)
qed

lemma mean_of_bounds:
  assumes "xs \<noteq> []"
  shows "of_int (Min (set xs)) \<le> mean_of xs \<and> mean_of xs \<le> of_int (Max (set xs))"
proof -
  have n: "(0::rat) < of_nat (length xs)" using assms by simp
  have "int (length xs) * Min (set xs) \<le> sum_list xs"
    by (rule sum_list_lower) simp
  then have "of_nat (length xs) * of_int (Min (set xs)) \<le> (of_int (sum_list xs) :: rat)"
    by (metis of_int_le_iff of_int_mult of_int_of_nat_eq)
  then have lo: "of_int (Min (set xs)) \<le> mean_of xs"
    using n by (simp add: mean_of_def pos_le_divide_eq mult.commute)
  have "sum_list xs \<le> int (length xs) * Max (set xs)"
    by (rule sum_list_upper) simp
  then have "(of_int (sum_list xs) :: rat) \<le> of_nat (length xs) * of_int (Max (set xs))"
    by (metis of_int_le_iff of_int_mult of_int_of_nat_eq)
  then have hi: "mean_of xs \<le> of_int (Max (set xs))"
    using n by (simp add: mean_of_def pos_divide_le_eq mult.commute)
  from lo hi show ?thesis ..
qed

lemma set_present_concat:
  "set (present (concat (concat xss))) = (\<Union>i\<in>{..<length xss}. set (present (concat (xss ! i))))"
  by (auto simp: in_set_conv_nth [of _ xss]) (blast intro: nth_mem)+

lemma nansum_concat_map: "sum_list (map (\<lambda>se. nansum (map h se)) xss) = nansum (map h (concat xss))"
  by (induction xss) auto

lemma present_filter_the: "present cs = map the (filter (\<lambda>c. c \<noteq> None) cs)"
  by (induction cs) (auto split: option.splits)

lemma mset_present: "mset cs = mset cs' \<Longrightarrow> mset (present cs) = mset (present cs')"
proof -
  assume "mset cs = mset cs'"
  then have "mset (filter (\<lambda>c. c \<noteq> None) cs) = mset (filter (\<lambda>c. c \<noteq> None) cs')"
    by (simp only: mset_filter)
  then show ?thesis by (simp only: present_filter_the mset_map)
qed

lemma fp_rounded_quot_exact:
  assumes n: "0 < n" and a: "\<bar>a\<bar> < 2 ^ 53"
    and r: "fp_rounded (of_int a / of_nat n) q"
  shows "\<lfloor>q\<rfloor> = \<lfloor>of_int a / of_nat n :: rat\<rfloor> \<and> trunc_rat q = trunc_rat (of_int a / of_nat n)"
proof -
  let ?x = "of_int a / of_nat n :: rat" and ?k = "\<lfloor>of_int a / of_nat n :: rat\<rfloor>"
  have "(of_int \<bar>a\<bar> :: rat) < of_int (2 ^ 53)" using a by (simp only: of_int_less_iff)
  then have aq: "\<bar>of_int a :: rat\<bar> < 2 ^ 53" by simp
  from r have exact: "?x = of_int ?k \<and> \<bar>?x\<bar> \<le> 2 ^ 53 \<longrightarrow> q = ?x"
    and bound: "\<bar>q - ?x\<bar> \<le> \<bar>?x\<bar> / 2 ^ 53"
    unfolding fp_rounded_def by blast+
  show ?thesis
  proof (cases "?x = of_int ?k")
    case True
    have "\<bar>?x\<bar> \<le> 2 ^ 53" using quot_le_abs [OF n, of a] aq by linarith
    with True exact have "q = ?x" by blast
    then show ?thesis by simp
  next
    case False
    have g1: "of_int ?k + 1 / of_nat n \<le> ?x" and g2: "?x + 1 / of_nat n \<le> of_int ?k + 1"
      using quot_gap [OF n False] by simp_all
    have "\<bar>q - ?x\<bar> < 1 / of_nat n" using bound quot_err_small [OF n aq] by linarith
    then have lo: "of_int ?k < q" and hi: "q < of_int ?k + 1" using g1 g2 by linarith+
    have pos: "(0::rat) < 1 / of_nat n" using n by simp
    have xlo: "of_int ?k < ?x" and xhi: "?x < of_int ?k + 1" using g1 g2 pos by linarith+
    have fq: "\<lfloor>q\<rfloor> = ?k" using lo hi by (simp add: floor_eq_iff)
    have cq: "\<lceil>q\<rceil> = ?k + 1" using lo hi by (simp add: ceiling_eq_iff)
    have cx: "\<lceil>?x\<rceil> = ?k + 1" using xlo xhi by (simp add: ceiling_eq_iff)
    have sign: "0 \<le> q \<longleftrightarrow> 0 \<le> ?x"
    proof (cases "0 \<le> ?k")
      case True
      then have "(0::rat) \<le> of_int ?k" by simp
      then show ?thesis using lo xlo by linarith
    next
      case False
      then have "?k + 1 \<le> 0" by linarith
      then have "(of_int (?k + 1) :: rat) \<le> 0" by (simp only: of_int_le_0_iff)
      then have "of_int ?k + 1 \<le> (0::rat)" by (simp only: of_int_add of_int_1)
      then show ?thesis using hi xhi by linarith
    qed
    show ?thesis using fq cq cx sign by (simp add: trunc_rat_def)
  qed
qed

section \<open>Properties of the reductions\<close>

text \<open>
  Float rounding does not change what the program prints from a mean: whenever the valid
  values' sum has magnitude below \<open>2^53\<close>, every correctly rounded float quotient of the
  sum by the count gives the same \<open>int()\<close> and the same \<open>np.floor\<close> as the exact
  mean of the model.
\<close>

lemma nanmean_float_exact:
  assumes ne: "present cs \<noteq> []" and small: "\<bar>sum_list (present cs)\<bar> < 2 ^ 53"
    and r: "fp_rounded (of_int (sum_list (present cs)) / of_nat (length (present cs))) q"
  shows "py_int (Some q) = py_int (nanmean cs) \<and> np_floor (Some q) = np_floor (nanmean cs)"
proof -
  have n: "0 < length (present cs)" using ne by simp
  have m: "nanmean cs = Some (of_int (sum_list (present cs)) / of_nat (length (present cs)))"
    using ne by (simp add: nanmean_def mean_of_def Let_def)
  from fp_rounded_quot_exact [OF n small r] m show ?thesis
    by (simp add: np_floor_def)
qed

end
