(* ===== verification/Loader.thy ===== *)
theory Loader
  imports Numpy
begin

text \<open>
  The module-level code of \<open>school_data.py\<close> (lines 17--42): the school directory, the
  axis labels, and the loop that fills the 3-D array \<open>enrollment_data\<close> from the ten
  flat yearly blocks of \<open>given_data\<close>. The array is a list of schools, each a list of
  grades, each a list of years, so that \<open>arr ! s ! g ! y\<close> is numpy's
  \<open>enrollment_data[s, g, y]\<close>.
\<close>

type_synonym enrollment = "cell list list list"

section \<open>The directory and the axis labels\<close>

definition school_names :: "string list" where
  "school_names =
    [''Centennial High School'', ''Robert Thirsk School'', ''Louise Dean School'',
     ''Queen Elizabeth High School'', ''Forest Lawn High School'',
     ''Crescent Heights High School'', ''Western Canada High School'',
     ''Central Memorial High School'', ''James Fowler High School'',
     ''Ernest Manning High School'', ''William Aberhart High School'',
     ''National Sport School'', ''Henry Wise Wood High School'', ''Bowness High School'',
     ''Lord Beaverbrook High School'', ''Jack James High School'',
     ''Sir Winston Churchill High School'', ''Dr. E. P. Scarlett High School'',
     ''John G Diefenbaker High School'', ''Lester B. Pearson High School'']"

definition school_codes :: "int list" where
  "school_codes =
    [1224, 1679, 9626, 9806, 9813, 9815, 9816, 9823, 9825, 9826, 9829, 9830, 9836, 9847,
     9850, 9856, 9857, 9858, 9860, 9865]"

definition years :: "string list" where
  "years = [''2013'', ''2014'', ''2015'', ''2016'', ''2017'', ''2018'', ''2019'', ''2020'',
            ''2021'', ''2022'']"

definition grades :: "string list" where
  "grades = [''Grade 10'', ''Grade 11'', ''Grade 12'']"

definition num_schools :: nat where
  "num_schools = length school_names"

definition num_grades :: nat where
  "num_grades = length grades"

definition num_years :: nat where
  "num_years = length years"

section \<open>Building the array\<close>

text \<open>\<open>np.zeros((ns, ng, ny))\<close>.\<close>

definition np_zeros :: "nat \<Rightarrow> nat \<Rightarrow> nat \<Rightarrow> enrollment" where
  "np_zeros ns ng ny = replicate ns (replicate ng (replicate ny (Some 0)))"

text \<open>
  \<open>year.reshape((r, c))\<close> of a flat block: row-major, so row \<open>i\<close> is the slice
  \<open>[i*c : (i+1)*c]\<close>; a block whose size is not \<open>r * c\<close> raises ValueError.
\<close>

fun chunks :: "nat \<Rightarrow> nat \<Rightarrow> 'a list \<Rightarrow> 'a list list" where
  "chunks 0 c xs = []"
| "chunks (Suc r) c xs = take c xs # chunks r c (drop c xs)"

definition reshape :: "nat \<Rightarrow> nat \<Rightarrow> cell list \<Rightarrow> cell list list result" where
  "reshape r c xs =
     (if length xs = r * c then Inr (chunks r c xs) else Inl (ShapeError (length xs)))"

text \<open>
  \<open>enrollment_data[:, :, y] = blk\<close>: cell \<open>(s, g, y)\<close> of the array receives
  \<open>blk[s][g]\<close>; an index \<open>y\<close> beyond the year axis raises IndexError.
\<close>

definition set_year :: "nat \<Rightarrow> cell list list \<Rightarrow> enrollment \<Rightarrow> enrollment" where
  "set_year y blk arr = map2 (\<lambda>row brow. map2 (\<lambda>cs v. cs[y := v]) row brow) arr blk"

definition store_year :: "nat \<Rightarrow> nat \<Rightarrow> cell list list \<Rightarrow> enrollment \<Rightarrow> enrollment result" where
  "store_year ny y blk arr = (if y < ny then Inr (set_year y blk arr) else Inl IndexError)"

text \<open>
  The loop \<open>for year_index, year in enumerate(years_data)\<close>: the right-hand side (the
  reshape) is evaluated before the slice is assigned, and the first exception ends the
  loading.
\<close>

fun load_from :: "nat \<Rightarrow> nat \<Rightarrow> nat \<Rightarrow> nat \<Rightarrow> cell list list \<Rightarrow> enrollment \<Rightarrow> enrollment result" where
  "load_from ns ng ny i [] arr = Inr arr"
| "load_from ns ng ny i (b # bs) arr =
     bindE (reshape ns ng b) (\<lambda>blk.
       bindE (store_year ny i blk arr) (\<lambda>arr'. load_from ns ng ny (Suc i) bs arr'))"

definition build_enrollment :: "nat \<Rightarrow> nat \<Rightarrow> nat \<Rightarrow> cell list list \<Rightarrow> enrollment result" where
  "build_enrollment ns ng ny years_data = load_from ns ng ny 0 years_data (np_zeros ns ng ny)"

text \<open>The program's own instance, with the shape taken from the label lists.\<close>

definition load_enrollment :: "cell list list \<Rightarrow> enrollment result" where
  "load_enrollment years_data = build_enrollment num_schools num_grades num_years years_data"

section \<open>Shape\<close>

definition has_shape :: "nat \<Rightarrow> nat \<Rightarrow> nat \<Rightarrow> enrollment \<Rightarrow> bool" where
  "has_shape ns ng ny arr \<longleftrightarrow>
     length arr = ns \<and> (\<forall>row\<in>set arr. length row = ng \<and> (\<forall>cs\<in>set row. length cs = ny))"

text \<open>The shape of a block after \<open>reshape((ns, ng))\<close>.\<close>

definition block_shape :: "nat \<Rightarrow> nat \<Rightarrow> cell list list \<Rightarrow> bool" where
  "block_shape ns ng blk \<longleftrightarrow> length blk = ns \<and> (\<forall>r\<in>set blk. length r = ng)"

section \<open>Lemmas: reshape, slice assignment and the loading loop\<close>

lemma program_dims [simp]:
  "num_schools = 20" "num_grades = 3" "num_years = 10" "length school_codes = 20"
  by (simp_all add: num_schools_def num_grades_def num_years_def school_names_def grades_def
      years_def school_codes_def)

lemma length_chunks [simp]: "length (chunks r c xs) = r"
  by (induction r arbitrary: xs) auto

lemma chunks_nth:
  "length xs = r * c \<Longrightarrow> i < r \<Longrightarrow> chunks r c xs ! i = take c (drop (i * c) xs)"
proof (induction r arbitrary: xs i)
  case 0
  then show ?case by simp
next
  case (Suc r)
  show ?case
  proof (cases i)
    case 0
    then show ?thesis by simp
  next
    case (Suc k)
    with Suc.prems have "chunks r c (drop c xs) ! k = take c (drop (k * c) (drop c xs))"
      by (intro Suc.IH) auto
    with Suc show ?thesis by (simp add: add.commute)
  qed
qed

lemma chunks_nth_nth:
  "length xs = r * c \<Longrightarrow> i < r \<Longrightarrow> j < c \<Longrightarrow> chunks r c xs ! i ! j = xs ! (i * c + j)"
proof -
  assume len: "length xs = r * c" and i: "i < r" and j: "j < c"
  from i have "i * c + c \<le> r * c"
    by (metis add.commute mult_Suc less_eq_Suc_le mult_le_mono1)
  with j len have "i * c + j < length xs" by simp
  with len i j show ?thesis by (simp add: chunks_nth)
qed

lemma length_chunks_nth:
  "length xs = r * c \<Longrightarrow> i < r \<Longrightarrow> length (chunks r c xs ! i) = c"
proof -
  assume len: "length xs = r * c" and i: "i < r"
  from i have "i * c + c \<le> r * c"
    by (metis add.commute mult_Suc less_eq_Suc_le mult_le_mono1)
  with len i show ?thesis by (simp add: chunks_nth)
qed

lemma reshape_Inr:
  "reshape r c xs = Inr blk \<longleftrightarrow> length xs = r * c \<and> blk = chunks r c xs"
  by (auto simp: reshape_def)

lemma has_shape_np_zeros: "has_shape ns ng ny (np_zeros ns ng ny)"
  by (simp add: has_shape_def np_zeros_def)

lemma block_shape_chunks:
  "length xs = ns * ng \<Longrightarrow> block_shape ns ng (chunks ns ng xs)"
  by (auto simp: block_shape_def in_set_conv_nth length_chunks_nth)

lemma has_shape_row:
  "has_shape ns ng ny arr \<Longrightarrow> s < ns \<Longrightarrow> length (arr ! s) = ng"
  by (auto simp: has_shape_def dest: nth_mem)

lemma has_shape_nth:
  "has_shape ns ng ny arr \<Longrightarrow> s < ns \<Longrightarrow> g < ng \<Longrightarrow> length (arr ! s ! g) = ny"
proof -
  assume sh: "has_shape ns ng ny arr" and s: "s < ns" and g: "g < ng"
  from sh s have row: "arr ! s \<in> set arr" and "length (arr ! s) = ng"
    by (auto simp: has_shape_def has_shape_row)
  with g have "arr ! s ! g \<in> set (arr ! s)" by simp
  with sh row show ?thesis by (auto simp: has_shape_def)
qed

lemma block_shape_row:
  "block_shape ns ng blk \<Longrightarrow> s < ns \<Longrightarrow> length (blk ! s) = ng"
  by (auto simp: block_shape_def dest: nth_mem)

lemma has_shape_iff_nth:
  "has_shape ns ng ny arr \<longleftrightarrow>
     length arr = ns \<and> (\<forall>s<ns. length (arr ! s) = ng \<and> (\<forall>g<ng. length (arr ! s ! g) = ny))"
proof
  assume "has_shape ns ng ny arr"
  then show "length arr = ns \<and> (\<forall>s<ns. length (arr ! s) = ng \<and> (\<forall>g<ng. length (arr ! s ! g) = ny))"
    by (auto simp: has_shape_row has_shape_nth) (simp add: has_shape_def)
next
  assume "length arr = ns \<and> (\<forall>s<ns. length (arr ! s) = ng \<and> (\<forall>g<ng. length (arr ! s ! g) = ny))"
  then show "has_shape ns ng ny arr"
    by (auto simp: has_shape_def in_set_conv_nth)
qed

lemma length_set_year [simp]: "length (set_year y blk arr) = min (length arr) (length blk)"
  by (simp add: set_year_def)

lemma set_year_row:
  "s < length arr \<Longrightarrow> s < length blk \<Longrightarrow>
   set_year y blk arr ! s = map2 (\<lambda>cs v. cs[y := v]) (arr ! s) (blk ! s)"
  by (simp add: set_year_def)

lemma has_shape_set_year:
  assumes arr: "has_shape ns ng ny arr" and blk: "block_shape ns ng blk"
  shows "has_shape ns ng ny (set_year y blk arr)"
  unfolding has_shape_iff_nth
proof (intro conjI allI impI)
  show "length (set_year y blk arr) = ns"
    using arr blk by (simp add: has_shape_def block_shape_def)
next
  fix s assume s: "s < ns"
  then have row: "set_year y blk arr ! s = map2 (\<lambda>cs v. cs[y := v]) (arr ! s) (blk ! s)"
    using arr blk by (intro set_year_row) (auto simp: has_shape_def block_shape_def)
  show "length (set_year y blk arr ! s) = ng"
    using s arr blk by (simp add: row has_shape_row block_shape_row)
  fix g assume "g < ng"
  then show "length (set_year y blk arr ! s ! g) = ny"
    using s arr blk by (simp add: row has_shape_row block_shape_row has_shape_nth)
qed

lemma set_year_cell:
  assumes arr: "has_shape ns ng ny arr" and blk: "block_shape ns ng blk"
    and s: "s < ns" and g: "g < ng" and y': "y' < ny"
  shows "set_year y blk arr ! s ! g ! y' = (if y' = y then blk ! s ! g else arr ! s ! g ! y')"
proof -
  have row: "set_year y blk arr ! s = map2 (\<lambda>cs v. cs[y := v]) (arr ! s) (blk ! s)"
    using s arr blk by (intro set_year_row) (auto simp: has_shape_def block_shape_def)
  have "set_year y blk arr ! s ! g = (arr ! s ! g)[y := blk ! s ! g]"
    using s g arr blk by (simp add: row has_shape_row block_shape_row)
  then show ?thesis
    using s g y' arr by (simp add: has_shape_nth nth_list_update)
qed

lemma store_year_Inr:
  "store_year ny y blk arr = Inr arr' \<longleftrightarrow> y < ny \<and> arr' = set_year y blk arr"
  by (auto simp: store_year_def)

lemma load_from_shape:
  "has_shape ns ng ny arr \<Longrightarrow> load_from ns ng ny i bs arr = Inr arr' \<Longrightarrow>
   has_shape ns ng ny arr'"
proof (induction ns ng ny i bs arr rule: load_from.induct)
  case (1 ns ng ny i arr)
  then show ?case by simp
next
  case (2 ns ng ny i b bs arr)
  from "2.prems"(2) obtain blk where blk: "reshape ns ng b = Inr blk"
    and y: "i < ny"
    and rest: "load_from ns ng ny (Suc i) bs (set_year i blk arr) = Inr arr'"
    by (auto simp: bindE_eq_Inr_iff store_year_Inr)
  from blk have "block_shape ns ng blk"
    by (auto simp: reshape_Inr block_shape_chunks)
  with "2.prems"(1) have "has_shape ns ng ny (set_year i blk arr)"
    by (rule has_shape_set_year)
  with blk y rest show ?case
    by (intro "2.IH") (auto simp: store_year_def)
qed

lemma load_from_cell:
  "has_shape ns ng ny arr \<Longrightarrow> load_from ns ng ny i bs arr = Inr arr' \<Longrightarrow>
   s < ns \<Longrightarrow> g < ng \<Longrightarrow> y < ny \<Longrightarrow>
   arr' ! s ! g ! y =
     (if i \<le> y \<and> y < i + length bs then bs ! (y - i) ! (s * ng + g) else arr ! s ! g ! y)"
proof (induction ns ng ny i bs arr rule: load_from.induct)
  case (1 ns ng ny i arr)
  then show ?case by auto
next
  case (2 ns ng ny i b bs arr)
  from "2.prems"(2) obtain blk where blk: "reshape ns ng b = Inr blk"
    and yi: "i < ny"
    and rest: "load_from ns ng ny (Suc i) bs (set_year i blk arr) = Inr arr'"
    by (auto simp: bindE_eq_Inr_iff store_year_Inr)
  from blk have len: "length b = ns * ng" and blk_eq: "blk = chunks ns ng b"
    by (auto simp: reshape_Inr)
  then have bs: "block_shape ns ng blk" by (simp add: block_shape_chunks)
  have sh: "has_shape ns ng ny (set_year i blk arr)"
    using "2.prems"(1) bs by (rule has_shape_set_year)
  have IH: "arr' ! s ! g ! y =
     (if Suc i \<le> y \<and> y < Suc i + length bs then bs ! (y - Suc i) ! (s * ng + g)
      else set_year i blk arr ! s ! g ! y)"
    using blk yi sh rest "2.prems"(3-5) by (intro "2.IH") (auto simp: store_year_def)
  have cell: "set_year i blk arr ! s ! g ! y = (if y = i then b ! (s * ng + g) else arr ! s ! g ! y)"
    using set_year_cell [OF "2.prems"(1) bs "2.prems"(3-5)] "2.prems"(3,4) len blk_eq
    by (simp add: chunks_nth_nth)
  show ?case
  proof (cases "y = i")
    case True
    then show ?thesis using IH cell by simp
  next
    case False
    then have "Suc i \<le> y \<longleftrightarrow> i \<le> y" by auto
    moreover have "i \<le> y \<Longrightarrow> y \<noteq> i \<Longrightarrow> bs ! (y - Suc i) = (b # bs) ! (y - i)"
      by (simp add: Suc_diff_Suc [symmetric] less_le)
    ultimately show ?thesis using IH cell False by auto
  qed
qed

lemma load_from_Inr_iff:
  "has_shape ns ng ny arr \<Longrightarrow> i \<le> ny \<Longrightarrow>
   (\<exists>arr'. load_from ns ng ny i bs arr = Inr arr') \<longleftrightarrow>
   (\<forall>b\<in>set bs. length b = ns * ng) \<and> i + length bs \<le> ny"
proof (induction ns ng ny i bs arr rule: load_from.induct)
  case (1 ns ng ny i arr)
  then show ?case by simp
next
  case (2 ns ng ny i b bs arr)
  show ?case
  proof (cases "length b = ns * ng \<and> i < ny")
    case True
    then have bs: "block_shape ns ng (chunks ns ng b)" by (simp add: block_shape_chunks)
    have sh: "has_shape ns ng ny (set_year i (chunks ns ng b) arr)"
      using "2.prems"(1) bs by (rule has_shape_set_year)
    have step: "load_from ns ng ny i (b # bs) arr =
                load_from ns ng ny (Suc i) bs (set_year i (chunks ns ng b) arr)"
      using True by (simp add: reshape_def store_year_def)
    have ih: "(\<exists>arr'. load_from ns ng ny (Suc i) bs (set_year i (chunks ns ng b) arr) = Inr arr')
      \<longleftrightarrow> (\<forall>b\<in>set bs. length b = ns * ng) \<and> Suc i + length bs \<le> ny"
      using sh True by (intro "2.IH") auto
    show ?thesis
      using ih True step by auto
  next
    case False
    then have "\<forall>arr'. load_from ns ng ny i (b # bs) arr \<noteq> Inr arr'"
      by (auto simp: reshape_def store_year_def)
    with False show ?thesis by auto
  qed
qed

lemma load_from_Inl:
  "load_from ns ng ny i bs arr = Inl e \<Longrightarrow>
   (\<exists>b\<in>set bs. length b \<noteq> ns * ng \<and> e = ShapeError (length b)) \<or>
   (e = IndexError \<and> ny < i + length bs)"
proof (induction ns ng ny i bs arr rule: load_from.induct)
  case (1 ns ng ny i arr)
  then show ?case by simp
next
  case (2 ns ng ny i b bs arr)
  show ?case
  proof (cases "length b = ns * ng")
    case False
    with "2.prems" show ?thesis by (auto simp: reshape_def)
  next
    case True
    show ?thesis
    proof (cases "i < ny")
      case False
      with True "2.prems" show ?thesis by (auto simp: reshape_def store_year_def)
    next
      case yi: True
      with True "2.prems" have "load_from ns ng ny (Suc i) bs (set_year i (chunks ns ng b) arr) = Inl e"
        by (simp add: reshape_def store_year_def)
      then have "(\<exists>b'\<in>set bs. length b' \<noteq> ns * ng \<and> e = ShapeError (length b')) \<or>
                 (e = IndexError \<and> ny < Suc i + length bs)"
        by (rule "2.IH")
      then show ?thesis by auto
    qed
  qed
qed

section \<open>The program's loader\<close>

lemma np_zeros_cell:
  "s < ns \<Longrightarrow> g < ng \<Longrightarrow> y < ny \<Longrightarrow> np_zeros ns ng ny ! s ! g ! y = Some 0"
  by (simp add: np_zeros_def)

lemma build_enrollment_Inr_iff:
  "(\<exists>arr. build_enrollment ns ng ny bs = Inr arr) \<longleftrightarrow>
   (\<forall>b\<in>set bs. length b = ns * ng) \<and> length bs \<le> ny"
  using load_from_Inr_iff [OF has_shape_np_zeros, of 0 ny ns ng bs]
  by (simp add: build_enrollment_def)

lemma build_enrollment_cell:
  "build_enrollment ns ng ny bs = Inr arr \<Longrightarrow> s < ns \<Longrightarrow> g < ng \<Longrightarrow> y < ny \<Longrightarrow>
   arr ! s ! g ! y = (if y < length bs then bs ! y ! (s * ng + g) else Some 0)"
  using load_from_cell [OF has_shape_np_zeros, of ns ng ny 0 bs arr s g y]
  by (simp add: build_enrollment_def np_zeros_cell)

text \<open>
  C4. Loading then reading back: cell \<open>(s, g, y)\<close> of the loaded array is the value at
  flat offset \<open>s * num_grades + g\<close> of the block of year \<open>y\<close>.
\<close>

theorem load_enrollment_roundtrip:
  assumes "load_enrollment years_data = Inr arr"
    and "s < num_schools" and "g < num_grades" and "y < length years_data"
  shows "arr ! s ! g ! y = years_data ! y ! (s * num_grades + g)"
proof -
  from assms(1) have "(\<forall>b\<in>set years_data. length b = num_schools * num_grades) \<and>
                      length years_data \<le> num_years"
    using build_enrollment_Inr_iff unfolding load_enrollment_def by blast
  with assms(4) have "y < num_years" by linarith
  with assms show ?thesis
    unfolding load_enrollment_def by (simp add: build_enrollment_cell)
qed

theorem load_enrollment_roundtrip_witness:
  "load_enrollment (map (\<lambda>y. map (\<lambda>k. Some (int (100 * y + k))) [0..<60]) [0..<10]) =
     Inr (projr (load_enrollment (map (\<lambda>y. map (\<lambda>k. Some (int (100 * y + k))) [0..<60]) [0..<10])))
   \<and> projr (load_enrollment (map (\<lambda>y. map (\<lambda>k. Some (int (100 * y + k))) [0..<60]) [0..<10]))
       ! 1 ! 2 ! 3 = Some 305"
proof -
  let ?D = "map (\<lambda>y. map (\<lambda>k. Some (int (100 * y + k))) [0..<60]) [0..<10]"
  have "\<exists>arr. load_enrollment ?D = Inr arr"
    unfolding load_enrollment_def build_enrollment_Inr_iff by simp
  then have ok: "load_enrollment ?D = Inr (projr (load_enrollment ?D))" by auto
  have "projr (load_enrollment ?D) ! 1 ! 2 ! 3 = ?D ! 3 ! (1 * num_grades + 2)"
    using load_enrollment_roundtrip [OF ok] by simp
  with ok show ?thesis by simp
qed

text \<open>
  C5. Whenever loading succeeds, the array has the shape \<open>(num_schools, num_grades,
  num_years)\<close> = (20, 3, 10) that \<open>np.zeros\<close> gave it.
\<close>

theorem load_enrollment_shape:
  "load_enrollment years_data = Inr arr \<Longrightarrow> has_shape num_schools num_grades num_years arr"
  unfolding load_enrollment_def build_enrollment_def
  by (rule load_from_shape [OF has_shape_np_zeros])

theorem load_enrollment_shape_witness:
  "load_enrollment (replicate 10 (replicate 60 (Some 7))) =
     Inr (projr (load_enrollment (replicate 10 (replicate 60 (Some 7)))))
   \<and> has_shape 20 3 10 (projr (load_enrollment (replicate 10 (replicate 60 (Some 7)))))"
proof -
  let ?D = "replicate 10 (replicate 60 (Some (7::int)))"
  have "\<exists>arr. load_enrollment ?D = Inr arr"
    unfolding load_enrollment_def build_enrollment_Inr_iff by simp
  then have ok: "load_enrollment ?D = Inr (projr (load_enrollment ?D))" by auto
  with load_enrollment_shape [OF ok] show ?thesis by simp
qed

text \<open>
  C6. Loading succeeds exactly when every yearly block holds
  \<open>num_schools * num_grades\<close> = 60 values and there are at most \<open>num_years\<close> = 10
  blocks; otherwise it raises.
\<close>

theorem load_enrollment_ok_iff:
  "(\<exists>arr. load_enrollment years_data = Inr arr) \<longleftrightarrow>
   (\<forall>b\<in>set years_data. length b = 60) \<and> length years_data \<le> 10"
  unfolding load_enrollment_def build_enrollment_Inr_iff by simp

theorem load_enrollment_ok_iff_witness:
  "(\<exists>arr. load_enrollment [replicate 59 (Some 1)] = Inr arr) = False \<and>
   (\<exists>arr. load_enrollment [replicate 60 (Some 1)] = Inr arr)"
  using load_enrollment_ok_iff [of "[replicate 59 (Some 1)]"]
    load_enrollment_ok_iff [of "[replicate 60 (Some 1)]"]
  by simp

text \<open>
  C7. The two ways loading fails: a block of the wrong size raises the reshape
  ValueError carrying that block's size, and an eleventh block raises IndexError on the
  year axis.
\<close>

theorem load_enrollment_error:
  "load_enrollment years_data = Inl e \<Longrightarrow>
   (\<exists>b\<in>set years_data. length b \<noteq> 60 \<and> e = ShapeError (length b)) \<or>
   (e = IndexError \<and> 10 < length years_data)"
  using load_from_Inl [of num_schools num_grades num_years 0 years_data _ e]
  by (simp add: load_enrollment_def build_enrollment_def)

theorem load_enrollment_error_witness:
  "load_enrollment [replicate 59 (Some 1)] = Inl (ShapeError 59) \<and>
   ((\<exists>b\<in>set [replicate 59 (Some (1::int))]. length b \<noteq> 60 \<and> ShapeError 59 = ShapeError (length b)) \<or>
    (ShapeError 59 = IndexError \<and> 10 < length [replicate 59 (Some (1::int))]))"
proof -
  have e: "load_enrollment [replicate 59 (Some 1)] = Inl (ShapeError 59)"
    by (simp add: load_enrollment_def build_enrollment_def reshape_def)
  with load_enrollment_error [OF e] show ?thesis by blast
qed

end
