(* ===== verification/SchoolStats.thy ===== *)
theory SchoolStats
  imports Loader
begin

text \<open>
  \<open>calculate_school_stats\<close> (lines 109--144): the statistics of one school's
  \<open>(grade, year)\<close> slice. The returned dictionary has fixed keys, so it is a record with
  one field per key; its \<open>yearly_enrollments\<close> entry is itself a dictionary, kept as an
  association list in insertion order (Python dictionaries preserve it). Each entry is
  computed in the order of the source and the first exception ends the call.
\<close>

record school_stats =
  mean_grade_10 :: int
  mean_grade_11 :: int
  mean_grade_12 :: int
  highest_enrollment :: int
  lowest_enrollment :: int
  yearly_enrollments :: "(string \<times> int) list"
  total_enrollment_10_years :: int
  mean_total_yearly_enrollment :: int

text \<open>\<open>int(np.nanmean(school_enrollment[k, :]))\<close>: the truncated mean of one grade row.\<close>

definition grade_mean :: "cell list list \<Rightarrow> int \<Rightarrow> int result" where
  "grade_mean se k = bindE (py_index se k) (\<lambda>row. py_int (nanmean row))"

text \<open>\<open>school_enrollment[:, i]\<close>: year \<open>i\<close> of every grade; IndexError past the axis.\<close>

definition np_column :: "cell list list \<Rightarrow> nat \<Rightarrow> cell list result" where
  "np_column se i =
     (if list_all (\<lambda>row. i < length row) se then Inr (map (\<lambda>row. row ! i) se)
      else Inl IndexError)"

text \<open>
  The dictionary comprehension \<open>{year: int(np.nansum(school_enrollment[:, i])) for i, year
  in enumerate(years)}\<close>, built by inserting one key after the other.
\<close>

fun yearly_from :: "string list \<Rightarrow> nat \<Rightarrow> cell list list \<Rightarrow> (string \<times> int) list \<Rightarrow>
    (string \<times> int) list result" where
  "yearly_from [] i se d = Inr d"
| "yearly_from (y # ys) i se d =
     bindE (np_column se i) (\<lambda>col. yearly_from ys (Suc i) se (AList.update y (nansum col) d))"

text \<open>\<open>np.nansum(school_enrollment, axis = 0)\<close> over the \<open>ny\<close> years of the slice.\<close>

definition year_totals :: "nat \<Rightarrow> cell list list \<Rightarrow> int list" where
  "year_totals ny se = map (\<lambda>j. nansum (map (\<lambda>row. row ! j) se)) [0..<ny]"

text \<open>
  The whole function, for the label list \<open>yrs\<close> and an array whose year axis has
  \<open>ny\<close> entries.
\<close>

definition calculate_school_stats_in ::
    "string list \<Rightarrow> nat \<Rightarrow> enrollment \<Rightarrow> int \<Rightarrow> school_stats result" where
  "calculate_school_stats_in yrs ny arr school_index =
     bindE (py_index arr school_index) (\<lambda>se.
     bindE (grade_mean se 0) (\<lambda>m10.
     bindE (grade_mean se 1) (\<lambda>m11.
     bindE (grade_mean se 2) (\<lambda>m12.
     bindE (py_int (map_option of_int (nanmax (concat se)))) (\<lambda>hi.
     bindE (py_int (map_option of_int (nanmin (concat se)))) (\<lambda>lo.
     bindE (yearly_from yrs 0 se []) (\<lambda>ye.
     let tot = year_totals ny se in
     bindE (py_int (Some (of_int (nansum (map Some tot))))) (\<lambda>t10.
     bindE (py_int (nanmean (map Some tot))) (\<lambda>mt.
     Inr \<lparr>mean_grade_10 = m10, mean_grade_11 = m11, mean_grade_12 = m12,
          highest_enrollment = hi, lowest_enrollment = lo, yearly_enrollments = ye,
          total_enrollment_10_years = t10, mean_total_yearly_enrollment = mt\<rparr>)))))))))"

text \<open>The program's instance: its \<open>years\<close> labels and its ten-year array.\<close>

definition calculate_school_stats :: "enrollment \<Rightarrow> int \<Rightarrow> school_stats result" where
  "calculate_school_stats arr school_index =
     calculate_school_stats_in years num_years arr school_index"

section \<open>The abstract specification\<close>

text \<open>
  What the function promises for a slice \<open>se\<close> (the rows of one school): the
  truncated mean of the non-NaN values of each grade, the largest and smallest non-NaN
  value, the year totals keyed by year label, their sum and their truncated mean. The
  function succeeds exactly on slices where \<open>school_ok\<close> holds.
\<close>

definition school_ok :: "nat \<Rightarrow> cell list list \<Rightarrow> bool" where
  "school_ok ny se \<longleftrightarrow>
     3 \<le> length se \<and> present (se ! 0) \<noteq> [] \<and> present (se ! 1) \<noteq> [] \<and>
     present (se ! 2) \<noteq> [] \<and> list_all (\<lambda>row. ny \<le> length row) se"

definition school_stats_spec :: "string list \<Rightarrow> nat \<Rightarrow> cell list list \<Rightarrow> school_stats" where
  "school_stats_spec yrs ny se =
     \<lparr>mean_grade_10 = trunc_rat (mean_of (present (se ! 0))),
      mean_grade_11 = trunc_rat (mean_of (present (se ! 1))),
      mean_grade_12 = trunc_rat (mean_of (present (se ! 2))),
      highest_enrollment = Max (set (present (concat se))),
      lowest_enrollment = Min (set (present (concat se))),
      yearly_enrollments = zip yrs (year_totals (length yrs) se),
      total_enrollment_10_years = sum_list (year_totals ny se),
      mean_total_yearly_enrollment = trunc_rat (mean_of (year_totals ny se))\<rparr>"

section \<open>Lemmas\<close>

lemma update_fresh: "k \<notin> fst ` set d \<Longrightarrow> AList.update k v d = d @ [(k, v)]"
  by (induction d) auto

lemma np_column_Inr:
  "list_all (\<lambda>row. i < length row) se \<Longrightarrow> np_column se i = Inr (map (\<lambda>row. row ! i) se)"
  by (simp add: np_column_def)

lemma yearly_from_eq:
  "distinct ys \<Longrightarrow> set ys \<inter> fst ` set d = {} \<Longrightarrow>
   list_all (\<lambda>row. i + length ys \<le> length row) se \<Longrightarrow>
   yearly_from ys i se d =
     Inr (d @ zip ys (map (\<lambda>j. nansum (map (\<lambda>row. row ! j) se)) [i..<i + length ys]))"
proof (induction ys arbitrary: i d)
  case Nil
  then show ?case by simp
next
  case (Cons y ys)
  let ?v = "nansum (map (\<lambda>row. row ! i) se)"
  have col: "np_column se i = Inr (map (\<lambda>row. row ! i) se)"
    using Cons.prems(3) by (intro np_column_Inr) (auto simp: list_all_iff)
  have upd: "AList.update y ?v d = d @ [(y, ?v)]"
    using Cons.prems(2) by (intro update_fresh) auto
  have "yearly_from ys (Suc i) se (d @ [(y, ?v)]) =
        Inr ((d @ [(y, ?v)]) @ zip ys (map (\<lambda>j. nansum (map (\<lambda>row. row ! j) se))
               [Suc i..<Suc i + length ys]))"
    using Cons.prems by (intro Cons.IH) (auto simp: list_all_iff)
  moreover have "[i..<i + length (y # ys)] = i # [Suc i..<Suc i + length ys]"
    by (simp add: upt_rec)
  ultimately show ?case by (simp add: col upd)
qed

lemma yearly_from_Inl:
  "yearly_from ys i se d = Inl e \<Longrightarrow> e = IndexError"
  by (induction ys i se d rule: yearly_from.induct)
     (auto simp: np_column_def bindE_eq_Inl_iff split: if_splits)

lemma yearly_from_Inr_imp:
  "yearly_from ys i se d = Inr r \<Longrightarrow> ys \<noteq> [] \<Longrightarrow>
   list_all (\<lambda>row. i + length ys \<le> length row) se"
proof (induction ys i se d rule: yearly_from.induct)
  case (1 i se d)
  then show ?case by simp
next
  case (2 y ys i se d)
  from "2.prems"(1) have col: "list_all (\<lambda>row. i < length row) se"
    by (auto simp: np_column_def bindE_eq_Inr_iff split: if_splits)
  show ?case
  proof (cases ys)
    case Nil
    with col show ?thesis by (auto simp: list_all_iff Suc_le_eq)
  next
    case (Cons z zs)
    from "2.prems"(1) col have
      "yearly_from ys (Suc i) se (AList.update y (nansum (map (\<lambda>row. row ! i) se)) d) = Inr r"
      by (simp add: np_column_def)
    with Cons have "list_all (\<lambda>row. Suc i + length ys \<le> length row) se"
      using "2.IH" by blast
    then show ?thesis by (simp add: list_all_iff)
  qed
qed

lemma grade_mean_eq:
  "k < length se \<Longrightarrow>
   grade_mean se (int k) =
     (if present (se ! k) = [] then Inl NaNToInt else Inr (trunc_rat (mean_of (present (se ! k)))))"
  by (simp add: grade_mean_def nanmean_def mean_of_def Let_def)

lemma grade_mean_Inr_iff:
  "grade_mean se (int k) = Inr m \<longleftrightarrow>
   k < length se \<and> present (se ! k) \<noteq> [] \<and> m = trunc_rat (mean_of (present (se ! k)))"
  by (auto simp: grade_mean_def nanmean_def mean_of_def Let_def split: if_splits)

lemma nanmean_map_Some: "xs \<noteq> [] \<Longrightarrow> nanmean (map Some xs) = Some (mean_of xs)"
  by (simp add: nanmean_def mean_of_def)

lemma nanmean_map_Some_Nil: "nanmean (map Some []) = None"
  by (simp add: nanmean_def)

lemma nansum_map_Some: "nansum (map Some xs) = sum_list xs"
  by (simp add: nansum_def)

lemma length_year_totals [simp]: "length (year_totals ny se) = ny"
  by (simp add: year_totals_def)

lemma present_concat_ne:
  "0 < length se \<Longrightarrow> present (se ! 0) \<noteq> [] \<Longrightarrow> present (concat se) \<noteq> []"
  by (cases se) auto

lemma calculate_school_stats_in_Inr_iff:
  assumes yrs: "distinct yrs"
  shows "calculate_school_stats_in yrs ny arr i = Inr st \<longleftrightarrow>
         (\<exists>se. py_index arr i = Inr se \<and> school_ok (length yrs) se \<and> 0 < ny \<and>
               st = school_stats_spec yrs ny se)"
  (is "?lhs \<longleftrightarrow> ?rhs")
proof
  assume ?lhs
  then obtain se m10 m11 m12 hi lo ye mt where
      se: "py_index arr i = Inr se" and
      m10: "grade_mean se 0 = Inr m10" and m11: "grade_mean se 1 = Inr m11" and
      m12: "grade_mean se 2 = Inr m12" and
      hi: "py_int (map_option of_int (nanmax (concat se))) = Inr hi" and
      lo: "py_int (map_option of_int (nanmin (concat se))) = Inr lo" and
      ye: "yearly_from yrs 0 se [] = Inr ye" and
      mt: "py_int (nanmean (map Some (year_totals ny se))) = Inr mt" and
      st: "st = \<lparr>mean_grade_10 = m10, mean_grade_11 = m11, mean_grade_12 = m12,
          highest_enrollment = hi, lowest_enrollment = lo, yearly_enrollments = ye,
          total_enrollment_10_years = sum_list (year_totals ny se),
          mean_total_yearly_enrollment = mt\<rparr>"
    by (auto simp: calculate_school_stats_in_def bindE_eq_Inr_iff Let_def nansum_map_Some)
  from m10 m11 m12 have g: "grade_mean se (int 0) = Inr m10" "grade_mean se (int 1) = Inr m11"
      "grade_mean se (int 2) = Inr m12"
    by simp_all
  then have len: "3 \<le> length se" and ne: "present (se ! 0) \<noteq> []" "present (se ! 1) \<noteq> []"
      "present (se ! 2) \<noteq> []"
    by (auto simp only: grade_mean_Inr_iff)
  have ny: "0 < ny"
    using mt by (cases ny) (auto simp: nanmean_def year_totals_def)
  have rows: "list_all (\<lambda>row. length yrs \<le> length row) se"
  proof (cases "yrs = []")
    case True
    then show ?thesis by (simp add: list_all_iff)
  next
    case False
    with ye show ?thesis using yearly_from_Inr_imp [of yrs 0 se "[]" ye] by simp
  qed
  have ye_eq: "ye = zip yrs (year_totals (length yrs) se)"
    using yearly_from_eq [OF yrs, of "[]" 0 se] rows ye by (simp add: year_totals_def)
  have cne: "present (concat se) \<noteq> []"
    using len ne(1) by (intro present_concat_ne) auto
  have hl: "hi = Max (set (present (concat se)))" "lo = Min (set (present (concat se)))"
    using hi lo cne by (simp_all add: nan_simps)
  have "year_totals ny se \<noteq> []"
    using ny by (simp add: year_totals_def)
  then have mt_eq: "mt = trunc_rat (mean_of (year_totals ny se))"
    using mt by (simp add: nanmean_map_Some)
  have ok: "school_ok (length yrs) se"
    using len ne rows by (simp add: school_ok_def)
  have m: "m10 = trunc_rat (mean_of (present (se ! 0)))"
      "m11 = trunc_rat (mean_of (present (se ! 1)))"
      "m12 = trunc_rat (mean_of (present (se ! 2)))"
    using g by (auto simp only: grade_mean_Inr_iff)
  have "st = school_stats_spec yrs ny se"
    using m st hl ye_eq mt_eq by (simp add: school_stats_spec_def)
  with se ok ny show ?rhs by blast
next
  assume ?rhs
  then obtain se where se: "py_index arr i = Inr se" and ok: "school_ok (length yrs) se"
    and ny: "0 < ny" and st: "st = school_stats_spec yrs ny se"
    by blast
  from ok have len: "3 \<le> length se" and ne: "present (se ! 0) \<noteq> []"
      "present (se ! 1) \<noteq> []" "present (se ! 2) \<noteq> []"
    and rows: "list_all (\<lambda>row. length yrs \<le> length row) se"
    by (simp_all add: school_ok_def)
  have g: "grade_mean se 0 = Inr (trunc_rat (mean_of (present (se ! 0))))"
      "grade_mean se 1 = Inr (trunc_rat (mean_of (present (se ! 1))))"
      "grade_mean se 2 = Inr (trunc_rat (mean_of (present (se ! 2))))"
  proof -
    have "se \<noteq> []" using len by auto
    then show "grade_mean se 0 = Inr (trunc_rat (mean_of (present (se ! 0))))"
      "grade_mean se 1 = Inr (trunc_rat (mean_of (present (se ! 1))))"
      "grade_mean se 2 = Inr (trunc_rat (mean_of (present (se ! 2))))"
      using grade_mean_eq [of 0 se] grade_mean_eq [of 1 se] grade_mean_eq [of 2 se] len ne
      by auto
  qed
  have cne: "present (concat se) \<noteq> []"
    using len ne(1) by (intro present_concat_ne) auto
  have ye: "yearly_from yrs 0 se [] = Inr (zip yrs (year_totals (length yrs) se))"
    using yearly_from_eq [OF yrs, of "[]" 0 se] rows by (simp add: year_totals_def)
  have "year_totals ny se \<noteq> []"
    using ny by (simp add: year_totals_def)
  then have mt: "nanmean (map Some (year_totals ny se)) = Some (mean_of (year_totals ny se))"
    by (rule nanmean_map_Some)
  show ?lhs
    using se g cne ye mt st
    by (simp add: calculate_school_stats_in_def Let_def nan_simps nansum_map_Some
        school_stats_spec_def)
qed

lemma py_index_Inl: "py_index xs i = Inl e \<Longrightarrow> e = IndexError"
  by (auto simp: py_index_def split: if_splits)

lemma shaped_slice:
  assumes "has_shape num_schools num_grades num_years arr" and "0 \<le> i" and "i < int num_schools"
  shows "py_index arr i = Inr (arr ! nat i) \<and> length (arr ! nat i) = 3 \<and>
         list_all (\<lambda>row. length row = 10) (arr ! nat i)"
proof -
  from assms have s: "nat i < num_schools" by simp
  have "py_index arr i = Inr (arr ! nat i)"
    using assms s by (simp add: py_index_def has_shape_def)
  moreover have "length (arr ! nat i) = 3"
    using has_shape_row [OF assms(1) s] by simp
  moreover have "list_all (\<lambda>row. length row = 10) (arr ! nat i)"
    using has_shape_nth [OF assms(1) s] \<open>length (arr ! nat i) = 3\<close>
    by (auto simp: list_all_iff in_set_conv_nth)
  ultimately show ?thesis by blast
qed

lemma calculate_school_stats_slice:
  assumes se: "py_index arr i = Inr se" and len: "length se = 3"
    and rows: "list_all (\<lambda>row. length row = 10) se"
  shows "calculate_school_stats arr i =
           (if present (se ! 0) \<noteq> [] \<and> present (se ! 1) \<noteq> [] \<and> present (se ! 2) \<noteq> []
            then Inr (school_stats_spec years num_years se) else Inl NaNToInt)"
proof (cases "present (se ! 0) \<noteq> [] \<and> present (se ! 1) \<noteq> [] \<and> present (se ! 2) \<noteq> []")
  case True
  have yrs: "distinct years" by (simp add: years_def)
  have "school_ok (length years) se"
    using True len rows by (simp add: school_ok_def years_def list_all_iff)
  with True se show ?thesis
    by (simp add: calculate_school_stats_def calculate_school_stats_in_Inr_iff [OF yrs])
next
  case False
  have g: "grade_mean se k = (if present (se ! nat k) = [] then Inl NaNToInt
                              else Inr (trunc_rat (mean_of (present (se ! nat k)))))"
    if "0 \<le> k" "k < 3" for k
    using grade_mean_eq [of "nat k" se] that len by simp
  from False show ?thesis
    using se g [of 0] g [of 1] g [of 2]
    by (auto simp: calculate_school_stats_def calculate_school_stats_in_def)
qed

lemma program_years: "distinct years" "length years = num_years"
  by (simp_all add: years_def)

lemma calculate_school_stats_Inr_slice:
  "calculate_school_stats arr i = Inr st \<Longrightarrow>
   \<exists>se. py_index arr i = Inr se \<and> school_ok 10 se \<and> st = school_stats_spec years 10 se"
  using calculate_school_stats_in_Inr_iff [OF program_years(1)] program_years(2)
  by (auto simp: calculate_school_stats_def)

lemma nansum_nonneg: "(\<forall>x. Some x \<in> set cs \<longrightarrow> 0 \<le> x) \<Longrightarrow> 0 \<le> nansum cs"
  by (induction cs) (auto split: option.splits)

lemma sum_list_present_nonneg: "(\<forall>x. Some x \<in> set cs \<longrightarrow> 0 \<le> x) \<Longrightarrow> 0 \<le> sum_list (present cs)"
  using nansum_nonneg by (simp add: nansum_def)

lemma year_totals_nonneg:
  assumes "\<forall>x. Some x \<in> set (concat se) \<longrightarrow> 0 \<le> x" and "list_all (\<lambda>row. ny \<le> length row) se"
  shows "0 \<le> sum_list (year_totals ny se)"
proof -
  have "0 \<le> t" if "t \<in> set (year_totals ny se)" for t
  proof -
    from that obtain j where j: "j < ny" and t: "t = nansum (map (\<lambda>row. row ! j) se)"
      by (auto simp: year_totals_def)
    have "0 \<le> x" if "Some x \<in> set (map (\<lambda>row. row ! j) se)" for x
    proof -
      from that obtain row where row: "row \<in> set se" and x: "row ! j = Some x" by auto
      from row assms(2) j have "j < length row" by (auto simp: list_all_iff)
      with row x have "Some x \<in> set (concat se)" by (metis UN_I nth_mem set_concat)
      with assms(1) show ?thesis by blast
    qed
    then show ?thesis by (simp add: t nansum_nonneg del: set_map)
  qed
  then show ?thesis by (simp add: sum_list_nonneg)
qed

lemma school_stats_extremes:
  "calculate_school_stats arr (int i) = Inr st \<Longrightarrow>
   i < length arr \<and> present (concat (arr ! i)) \<noteq> [] \<and>
   highest_enrollment st = Max (set (present (concat (arr ! i)))) \<and>
   lowest_enrollment st = Min (set (present (concat (arr ! i))))"
proof -
  assume "calculate_school_stats arr (int i) = Inr st"
  then obtain se where se: "py_index arr (int i) = Inr se" and ok: "school_ok 10 se"
    and st: "st = school_stats_spec years 10 se"
    by (blast dest: calculate_school_stats_Inr_slice)
  from se have i: "i < length arr" and "se = arr ! i" by (simp_all split: if_splits)
  moreover have "present (concat se) \<noteq> []"
  proof (rule present_concat_ne)
    have "3 \<le> length se" using ok by (simp add: school_ok_def)
    then show "0 < length se" by linarith
  qed (use ok in \<open>simp add: school_ok_def\<close>)
  ultimately show ?thesis using st by (simp add: school_stats_spec_def)
qed

lemma school_stats_yearly_lookup:
  assumes st: "calculate_school_stats arr (int i) = Inr st" and j: "j < num_years"
  shows "map_of (yearly_enrollments st) (years ! j) = Some (nansum (map (\<lambda>row. row ! j) (arr ! i)))"
proof -
  from st obtain se where se: "py_index arr (int i) = Inr se" and
    st': "st = school_stats_spec years 10 se"
    by (blast dest: calculate_school_stats_Inr_slice)
  from se have "se = arr ! i" by (simp split: if_splits)
  moreover have "map_of (zip years (year_totals (length years) se)) (years ! j) =
                 Some (year_totals (length years) se ! j)"
    using j program_years by (intro map_of_zip_nth) simp_all
  ultimately show ?thesis
    using j st' program_years by (simp add: school_stats_spec_def year_totals_def)
qed

lemma calculate_school_stats_replicate:
  "i < n \<Longrightarrow> calculate_school_stats (replicate n se) (int i) = calculate_school_stats [se] 0"
  by (simp add: calculate_school_stats_def calculate_school_stats_in_def py_index_def)

section \<open>Properties of calculate_school_stats\<close>

text \<open>
  C8. Refinement: \<open>calculate_school_stats\<close> succeeds on school \<open>i\<close> exactly when the
  school's slice has three grade rows, each with a non-NaN value, and ten years, and then
  returns the abstract statistics \<open>school_stats_spec\<close> of the slice.
\<close>

theorem calculate_school_stats_refines:
  "calculate_school_stats arr i = Inr st \<longleftrightarrow>
   (\<exists>se. py_index arr i = Inr se \<and> school_ok num_years se \<and>
         st = school_stats_spec years num_years se)"
  using calculate_school_stats_in_Inr_iff [OF program_years(1)] program_years(2)
  by (simp add: calculate_school_stats_def)

theorem calculate_school_stats_refines_witness:
  "calculate_school_stats [[replicate 10 (Some 100), replicate 10 (Some 200), Some 350 # replicate 9 None]] 0
     = Inr (school_stats_spec years num_years
              [replicate 10 (Some 100), replicate 10 (Some 200), Some 350 # replicate 9 None])"
  using calculate_school_stats_refines
    [of "[[replicate 10 (Some 100), replicate 10 (Some 200), Some 350 # replicate 9 None]]" 0
        "school_stats_spec years num_years
           [replicate 10 (Some 100), replicate 10 (Some 200), Some 350 # replicate 9 None]"]
  by (simp add: school_ok_def py_index_def)

text \<open>
  C9. On an array of the program's shape and a valid school index, the statistics are
  the abstract ones when each of the three grade rows has a non-NaN value, and otherwise the
  call raises the ValueError of \<open>int(nan)\<close>: \<open>np.nanmean\<close> of an all-NaN row is NaN.
\<close>

theorem calculate_school_stats_shaped:
  assumes "has_shape num_schools num_grades num_years arr" and "0 \<le> i" and "i < int num_schools"
  shows "calculate_school_stats arr i =
           (if present (arr ! nat i ! 0) \<noteq> [] \<and> present (arr ! nat i ! 1) \<noteq> [] \<and>
               present (arr ! nat i ! 2) \<noteq> []
            then Inr (school_stats_spec years num_years (arr ! nat i)) else Inl NaNToInt)"
  using shaped_slice [OF assms] by (intro calculate_school_stats_slice) auto

theorem calculate_school_stats_shaped_witness:
  "has_shape num_schools num_grades num_years
     (replicate 3 (replicate 10 None) # replicate 19 (replicate 3 (replicate 10 (Some 5))))
   \<and> calculate_school_stats
       (replicate 3 (replicate 10 None) # replicate 19 (replicate 3 (replicate 10 (Some 5)))) 0
     = Inl NaNToInt"
proof -
  let ?a = "replicate 3 (replicate 10 None) # replicate 19 (replicate 3 (replicate 10 (Some (5::int))))"
  have sh: "has_shape num_schools num_grades num_years ?a"
    by (simp add: has_shape_def)
  from calculate_school_stats_shaped [OF sh, of 0] sh show ?thesis by simp
qed

text \<open>
  C10. The two aggregation paths agree: the ten-year total equals the sum of the yearly
  totals of the \<open>yearly_enrollments\<close> dictionary, whose keys are the year labels in
  order.
\<close>

theorem school_stats_total_eq_yearly:
  "calculate_school_stats arr i = Inr st \<Longrightarrow>
   total_enrollment_10_years st = sum_list (map snd (yearly_enrollments st)) \<and>
   map fst (yearly_enrollments st) = years"
proof -
  assume "calculate_school_stats arr i = Inr st"
  then obtain se where st: "st = school_stats_spec years 10 se"
    using calculate_school_stats_Inr_slice by blast
  have "length years = 10" using program_years(2) by simp
  with st show ?thesis by (simp add: school_stats_spec_def)
qed

theorem school_stats_total_eq_yearly_witness:
  "calculate_school_stats [[replicate 10 (Some 100), replicate 10 (Some 200), Some 350 # replicate 9 None]] 0 =
     Inr \<lparr>mean_grade_10 = 100, mean_grade_11 = 200, mean_grade_12 = 350,
          highest_enrollment = 350, lowest_enrollment = 100,
          yearly_enrollments = zip years (650 # replicate 9 300),
          total_enrollment_10_years = 3350, mean_total_yearly_enrollment = 335\<rparr>
   \<and> (3350::int) = sum_list (map snd (zip years (650 # replicate 9 300)))
   \<and> map fst (zip years (650 # replicate 9 (300::int))) = years"
proof -
  have r: "calculate_school_stats [[replicate 10 (Some 100), replicate 10 (Some 200), Some 350 # replicate 9 None]] 0 =
     Inr \<lparr>mean_grade_10 = 100, mean_grade_11 = 200, mean_grade_12 = 350,
          highest_enrollment = 350, lowest_enrollment = 100,
          yearly_enrollments = zip years (650 # replicate 9 300),
          total_enrollment_10_years = 3350, mean_total_yearly_enrollment = 335\<rparr>"
    by code_simp
  from school_stats_total_eq_yearly [OF r] r show ?thesis by simp
qed

lemma set_present_row_sub:
  "k < length se \<Longrightarrow> set (present (se ! k)) \<subseteq> set (present (concat se))"
  by (auto intro!: bexI [of _ "se ! k"])

lemma mean_row_within:
  assumes k: "k < length se" and ne: "present (se ! k) \<noteq> []"
  shows "Min (set (present (concat se))) \<le> trunc_rat (mean_of (present (se ! k))) \<and>
         trunc_rat (mean_of (present (se ! k))) \<le> Max (set (present (concat se)))"
proof -
  let ?row = "set (present (se ! k))" and ?all = "set (present (concat se))"
  have sub: "?row \<subseteq> ?all" using k by (rule set_present_row_sub)
  have "Min ?all \<le> Min ?row"
    by (rule Min_antimono) (use sub ne in auto)
  moreover have "Max ?row \<le> Max ?all"
    by (rule Max_mono) (use sub ne in auto)
  moreover have "of_int (Min ?row) \<le> mean_of (present (se ! k)) \<and>
                 mean_of (present (se ! k)) \<le> of_int (Max ?row)"
    using ne by (rule mean_of_bounds)
  ultimately have "of_int (Min ?all) \<le> mean_of (present (se ! k)) \<and>
                   mean_of (present (se ! k)) \<le> of_int (Max ?all)"
    by (meson of_int_le_iff order_trans)
  then show ?thesis by (intro trunc_rat_bounds) auto
qed

lemma trunc_mean_nonneg:
  "0 \<le> sum_list xs \<Longrightarrow> trunc_rat (mean_of xs) = sum_list xs div int (length xs)"
  by (simp add: mean_of_def)

text \<open>
  C11. On non-negative enrollment data each grade mean is the floor of the sum of the
  grade's valid year values divided by their count, and the mean yearly total is the
  ten-year total divided by ten, rounded down.
\<close>

theorem school_stats_mean_floor:
  assumes ok: "calculate_school_stats arr i = Inr st" and se: "py_index arr i = Inr se"
    and nonneg: "\<forall>x. Some x \<in> set (concat se) \<longrightarrow> 0 \<le> x"
  shows "mean_grade_10 st = sum_list (present (se ! 0)) div int (length (present (se ! 0))) \<and>
         mean_grade_11 st = sum_list (present (se ! 1)) div int (length (present (se ! 1))) \<and>
         mean_grade_12 st = sum_list (present (se ! 2)) div int (length (present (se ! 2))) \<and>
         mean_total_yearly_enrollment st = total_enrollment_10_years st div 10"
proof -
  from ok obtain se' where se': "py_index arr i = Inr se'" and sok: "school_ok 10 se'"
    and st: "st = school_stats_spec years 10 se'"
    using calculate_school_stats_Inr_slice by blast
  from se se' have eq: "se' = se" by simp
  from sok eq have len: "3 \<le> length se" and rows: "list_all (\<lambda>row. 10 \<le> length row) se"
    by (simp_all add: school_ok_def)
  have row_nonneg: "0 \<le> sum_list (present (se ! k))" if "k < 3" for k
  proof (rule sum_list_present_nonneg, intro allI impI)
    fix x assume "Some x \<in> set (se ! k)"
    with that len have "Some x \<in> set (concat se)" by (auto dest: nth_mem)
    with nonneg show "0 \<le> x" by blast
  qed
  have tot: "0 \<le> sum_list (year_totals 10 se)"
    using nonneg rows by (rule year_totals_nonneg)
  have "trunc_rat (mean_of (year_totals 10 se)) = sum_list (year_totals 10 se) div 10"
    using tot by (simp add: trunc_mean_nonneg)
  then show ?thesis
    using st eq row_nonneg [of 0] row_nonneg [of 1] row_nonneg [of 2]
    by (simp add: school_stats_spec_def trunc_mean_nonneg)
qed

theorem school_stats_mean_floor_witness:
  "calculate_school_stats [[Some 10 # Some 21 # replicate 8 None, replicate 10 (Some 200),
                            Some 350 # replicate 9 None]] 0 =
     Inr (projr (calculate_school_stats [[Some 10 # Some 21 # replicate 8 None,
                     replicate 10 (Some 200), Some 350 # replicate 9 None]] 0))
   \<and> mean_grade_10 (projr (calculate_school_stats [[Some 10 # Some 21 # replicate 8 None,
                     replicate 10 (Some 200), Some 350 # replicate 9 None]] 0)) = 15"
proof -
  let ?se = "[Some 10 # Some 21 # replicate 8 None, replicate 10 (Some (200::int)),
              Some 350 # replicate 9 None]"
  have r: "calculate_school_stats [?se] 0 = Inr (projr (calculate_school_stats [?se] 0))"
    by code_simp
  have se: "py_index [?se] 0 = Inr ?se" by (simp add: py_index_def)
  have nn: "\<forall>x. Some x \<in> set (concat ?se) \<longrightarrow> 0 \<le> x" by auto
  from school_stats_mean_floor [OF r se nn] r show ?thesis by simp
qed

text \<open>
  C12. Each grade mean lies between the school's lowest and highest single-grade
  enrollment.
\<close>

theorem school_stats_bounds:
  assumes "calculate_school_stats arr i = Inr st"
  shows "lowest_enrollment st \<le> mean_grade_10 st \<and> mean_grade_10 st \<le> highest_enrollment st \<and>
         lowest_enrollment st \<le> mean_grade_11 st \<and> mean_grade_11 st \<le> highest_enrollment st \<and>
         lowest_enrollment st \<le> mean_grade_12 st \<and> mean_grade_12 st \<le> highest_enrollment st"
proof -
  from assms obtain se where sok: "school_ok 10 se" and st: "st = school_stats_spec years 10 se"
    using calculate_school_stats_Inr_slice by blast
  from sok have len: "3 \<le> length se" and ne: "present (se ! 0) \<noteq> []"
      "present (se ! 1) \<noteq> []" "present (se ! 2) \<noteq> []"
    by (simp_all add: school_ok_def)
  have k: "0 < length se" "1 < length se" "2 < length se"
    using len by (linarith, linarith, linarith)
  show ?thesis
    using st mean_row_within [OF k(1) ne(1)] mean_row_within [OF k(2) ne(2)]
      mean_row_within [OF k(3) ne(3)]
    by (simp add: school_stats_spec_def)
qed

theorem school_stats_bounds_witness:
  "calculate_school_stats [[replicate 10 (Some 100), replicate 10 (Some 200), Some 350 # replicate 9 None]] 0 =
     Inr \<lparr>mean_grade_10 = 100, mean_grade_11 = 200, mean_grade_12 = 350,
          highest_enrollment = 350, lowest_enrollment = 100,
          yearly_enrollments = zip years (650 # replicate 9 300),
          total_enrollment_10_years = 3350, mean_total_yearly_enrollment = 335\<rparr>
   \<and> (100::int) \<le> 200 \<and> (200::int) \<le> 350"
proof -
  have r: "calculate_school_stats [[replicate 10 (Some 100), replicate 10 (Some 200), Some 350 # replicate 9 None]] 0 =
     Inr \<lparr>mean_grade_10 = 100, mean_grade_11 = 200, mean_grade_12 = 350,
          highest_enrollment = 350, lowest_enrollment = 100,
          yearly_enrollments = zip years (650 # replicate 9 300),
          total_enrollment_10_years = 3350, mean_total_yearly_enrollment = 335\<rparr>"
    by code_simp
  from school_stats_bounds [OF r] r show ?thesis by simp
qed

end
