(* ===== verification/GeneralStats.thy ===== *)
theory GeneralStats
  imports Loader
begin

text \<open>
  \<open>calculate_general_statistics\<close> (lines 146--170): statistics over all schools.
  The first-year mean uses the plain \<open>ndarray.mean\<close>, which is NaN as soon as one cell
  is; the last-year figures go through \<open>np.ma.masked_invalid\<close>, whose mean and sum skip
  NaN and are the masked constant when nothing is left, and \<open>int()\<close> of the masked
  constant raises \<open>MaskError\<close>.
\<close>

record general_stats =
  mean_enrollment_2013 :: int
  mean_enrollment_2022 :: int
  total_enrollment_2022 :: int
  highest_yearly_enrollment :: int
  lowest_yearly_enrollment :: int

text \<open>Collecting a list of computations, stopping at the first exception.\<close>

fun collect :: "'a result list \<Rightarrow> 'a list result" where
  "collect [] = Inr []"
| "collect (r # rs) = bindE r (\<lambda>x. bindE (collect rs) (\<lambda>xs. Inr (x # xs)))"

text \<open>
  \<open>enrollment_data[:, :, y]\<close>, flattened in row-major order (school, then grade), as the
  reductions read it; \<open>y = -1\<close> is the last year.
\<close>

definition year_cells :: "enrollment \<Rightarrow> int \<Rightarrow> cell list result" where
  "year_cells arr y = collect (map (\<lambda>row. py_index row y) (concat arr))"

text \<open>\<open>int()\<close> of a masked-array scalar: the masked constant (\<open>None\<close>) raises.\<close>

definition ma_int :: "rat option \<Rightarrow> int result" where
  "ma_int v = (case v of None \<Rightarrow> Inl MaskedToInt | Some q \<Rightarrow> Inr (trunc_rat q))"

text \<open>\<open>np.nansum\<close> of a masked array: the sum of the unmasked cells, masked when all are.\<close>

definition ma_sum :: "cell list \<Rightarrow> rat option" where
  "ma_sum cs = (if present cs = [] then None else Some (of_int (nansum cs)))"

definition calculate_general_statistics :: "enrollment \<Rightarrow> general_stats result" where
  "calculate_general_statistics arr =
     bindE (year_cells arr 0) (\<lambda>c13.
     bindE (py_int (np_floor (plain_mean c13))) (\<lambda>m13.
     bindE (year_cells arr (-1)) (\<lambda>c22.
     bindE (ma_int (np_floor (nanmean c22))) (\<lambda>m22.
     bindE (ma_int (ma_sum c22)) (\<lambda>t22.
     bindE (py_int (map_option of_int (nanmax (concat (concat arr))))) (\<lambda>hi.
     bindE (py_int (map_option of_int (nanmin (concat (concat arr))))) (\<lambda>lo.
     Inr \<lparr>mean_enrollment_2013 = m13, mean_enrollment_2022 = m22, total_enrollment_2022 = t22,
          highest_yearly_enrollment = hi, lowest_yearly_enrollment = lo\<rparr>)))))))"

section \<open>The abstract specification\<close>

text \<open>
  What the function promises on an array whose year axis has \<open>ny\<close> entries: the floor
  of the mean of the valid first-year and last-year cells, the sum of the valid last-year
  cells, and the largest and smallest valid cell of the whole array.
\<close>

definition general_stats_spec :: "nat \<Rightarrow> enrollment \<Rightarrow> general_stats" where
  "general_stats_spec ny arr =
     (let c13 = present (map (\<lambda>row. row ! 0) (concat arr));
          c22 = present (map (\<lambda>row. row ! (ny - 1)) (concat arr));
          allc = present (concat (concat arr))
      in \<lparr>mean_enrollment_2013 = \<lfloor>mean_of c13\<rfloor>, mean_enrollment_2022 = \<lfloor>mean_of c22\<rfloor>,
          total_enrollment_2022 = sum_list c22,
          highest_yearly_enrollment = Max (set allc), lowest_yearly_enrollment = Min (set allc)\<rparr>)"

section \<open>Lemmas\<close>

lemma collect_map_Inr:
  "(\<forall>x\<in>set xs. f x = Inr (g x)) \<Longrightarrow> collect (map f xs) = Inr (map g xs)"
  by (induction xs) auto

lemma rows_of_shape:
  "has_shape ns ng ny arr \<Longrightarrow> row \<in> set (concat arr) \<Longrightarrow> length row = ny"
  by (auto simp: has_shape_def)

lemma year_cells_shaped:
  assumes "has_shape ns ng ny arr" and "0 < ny"
  shows "year_cells arr 0 = Inr (map (\<lambda>row. row ! 0) (concat arr))"
    and "year_cells arr (-1) = Inr (map (\<lambda>row. row ! (ny - 1)) (concat arr))"
proof -
  have len: "length row = ny" if "row \<in> set (concat arr)" for row
    using rows_of_shape [OF assms(1) that] .
  show "year_cells arr 0 = Inr (map (\<lambda>row. row ! 0) (concat arr))"
    unfolding year_cells_def
    by (rule collect_map_Inr) (use len assms(2) in \<open>auto simp: py_index_def\<close>)
  show "year_cells arr (-1) = Inr (map (\<lambda>row. row ! (ny - 1)) (concat arr))"
    unfolding year_cells_def
  proof (rule collect_map_Inr, intro ballI)
    fix row assume "row \<in> set (concat arr)"
    then have "length row = ny" by (rule len)
    with assms(2) show "py_index row (-1) = Inr (row ! (ny - 1))"
      by (simp add: py_index_def)
  qed
qed

lemma present_concat_concat_ne:
  "x \<in> set (present (map (\<lambda>row. row ! j) (concat arr))) \<Longrightarrow>
   (\<forall>row\<in>set (concat arr). j < length row) \<Longrightarrow> present (concat (concat arr)) \<noteq> []"
  by (auto simp: present_Nil_iff) (metis nth_mem)

lemma calculate_general_statistics_shaped_gen:
  assumes sh: "has_shape ns ng ny arr" and ny: "0 < ny"
  shows "calculate_general_statistics arr =
           (if None \<in> set (map (\<lambda>row. row ! 0) (concat arr)) \<or> concat arr = [] then Inl NaNToInt
            else if present (map (\<lambda>row. row ! (ny - 1)) (concat arr)) = [] then Inl MaskedToInt
            else Inr (general_stats_spec ny arr))"
proof -
  let ?c13 = "map (\<lambda>row. row ! 0) (concat arr)" and ?c22 = "map (\<lambda>row. row ! (ny - 1)) (concat arr)"
  have rows: "\<forall>row\<in>set (concat arr). ny - 1 < length row"
    using rows_of_shape [OF sh] ny by auto
  show ?thesis
  proof (cases "None \<in> set ?c13 \<or> concat arr = []")
    case True
    then have "plain_mean ?c13 = None" by (auto simp: plain_mean_def)
    with True show ?thesis
      by (simp add: calculate_general_statistics_def year_cells_shaped [OF sh ny])
  next
    case c13: False
    then have pm: "plain_mean ?c13 = Some (mean_of (present ?c13))"
      by (simp add: plain_mean_def)
    show ?thesis
    proof (cases "present ?c22 = []")
      case True
      with c13 pm show ?thesis
        by (simp add: calculate_general_statistics_def year_cells_shaped [OF sh ny] nanmean_def
            ma_int_def)
    next
      case False
      then obtain x where "x \<in> set (present ?c22)" by (metis list.set_sel(1))
      then have all: "present (concat (concat arr)) \<noteq> []"
        using rows by (rule present_concat_concat_ne)
      from False c13 pm all show ?thesis
        by (simp add: calculate_general_statistics_def year_cells_shaped [OF sh ny] nanmean_def
            ma_int_def ma_sum_def nanmax_eq nanmin_eq general_stats_spec_def nansum_def Let_def)
    qed
  qed
qed

lemma floor_div_bounds:
  "0 < n \<Longrightarrow> a div n * n \<le> a \<and> a < (a div n + 1) * (n::int)"
proof -
  assume n: "0 < n"
  have e: "a div n * n = a - a mod n" by (metis minus_mod_eq_mult_div mult.commute)
  have "0 \<le> a mod n" "a mod n < n" using n by simp_all
  with e show ?thesis by (simp only: distrib_right mult_1_left) linarith
qed

lemma concat_arr_ne:
  "has_shape num_schools num_grades num_years arr \<Longrightarrow> concat arr \<noteq> []"
proof -
  assume sh: "has_shape num_schools num_grades num_years arr"
  then have "arr ! 0 \<in> set arr" and "length (arr ! 0) = 3"
    using has_shape_row [OF sh, of 0] by (auto simp: has_shape_def)
  then have "arr ! 0 \<in> set arr" and "arr ! 0 \<noteq> []" by auto
  then show ?thesis by auto
qed

lemma general_stats_extremes:
  "calculate_general_statistics arr = Inr g \<Longrightarrow>
   present (concat (concat arr)) \<noteq> [] \<and>
   highest_yearly_enrollment g = Max (set (present (concat (concat arr)))) \<and>
   lowest_yearly_enrollment g = Min (set (present (concat (concat arr))))"
  by (auto simp: calculate_general_statistics_def bindE_eq_Inr_iff nan_simps
      split: if_splits)

section \<open>Properties of calculate_general_statistics\<close>

text \<open>
  C13. On an array of the program's shape, the general statistics are the abstract ones
  (floored means of the valid first-year and last-year cells, the last-year total, the
  global extremes) unless a first-year cell is NaN, where the plain mean is NaN and
  \<open>int\<close> raises ValueError, or every last-year cell is NaN, where the masked mean is
  masked and \<open>int\<close> raises MaskError.
\<close>

theorem calculate_general_statistics_shaped:
  assumes sh: "has_shape num_schools num_grades num_years arr"
  shows "calculate_general_statistics arr =
           (if None \<in> set (map (\<lambda>row. row ! 0) (concat arr)) then Inl NaNToInt
            else if present (map (\<lambda>row. row ! 9) (concat arr)) = [] then Inl MaskedToInt
            else Inr (general_stats_spec num_years arr))"
proof -
  have ny: "0 < num_years" by simp
  have ne: "(concat arr = []) = False" using concat_arr_ne [OF sh] by simp
  have n9: "num_years - 1 = 9" by simp
  show ?thesis
    using calculate_general_statistics_shaped_gen [OF sh ny] by (simp only: ne n9 simp_thms)
qed

theorem calculate_general_statistics_shaped_witness:
  "has_shape num_schools num_grades num_years (replicate 20 (replicate 3 (replicate 10 (Some 5))))
   \<and> calculate_general_statistics (replicate 20 (replicate 3 (replicate 10 (Some 5)))) =
       Inr (general_stats_spec num_years (replicate 20 (replicate 3 (replicate 10 (Some 5)))))"
proof -
  let ?a = "replicate 20 (replicate 3 (replicate 10 (Some (5::int))))"
  have sh: "has_shape num_schools num_grades num_years ?a" by (simp add: has_shape_def)
  have c: "concat ?a = replicate 60 (replicate 10 (Some 5))"
    by (simp add: numeral_eq_Suc)
  from calculate_general_statistics_shaped [OF sh] sh show ?thesis by (simp add: c)
qed

text \<open>
  C14. The last-year figures agree: the total is the sum of the valid last-year cells, and
  the reported mean is that sum divided by the number of valid cells, rounded down:
  \<open>mean * n \<le> total < (mean + 1) * n\<close>.
\<close>

theorem general_stats_2022_floor:
  assumes sh: "has_shape num_schools num_grades num_years arr"
    and ok: "calculate_general_statistics arr = Inr gs"
  shows "total_enrollment_2022 gs = sum_list (present (map (\<lambda>row. row ! 9) (concat arr))) \<and>
         mean_enrollment_2022 gs * int (length (present (map (\<lambda>row. row ! 9) (concat arr))))
           \<le> total_enrollment_2022 gs \<and>
         total_enrollment_2022 gs <
           (mean_enrollment_2022 gs + 1) * int (length (present (map (\<lambda>row. row ! 9) (concat arr))))"
proof -
  let ?c = "present (map (\<lambda>row. row ! 9) (concat arr))"
  have ny: "0 < num_years" by simp
  have n9: "num_years - 1 = 9" by simp
  from ok have ne: "?c \<noteq> []" and gs: "gs = general_stats_spec num_years arr"
    using calculate_general_statistics_shaped_gen [OF sh ny] concat_arr_ne [OF sh]
    by (auto simp: n9 split: if_splits)
  then have n: "0 < int (length ?c)" by simp
  have m: "mean_enrollment_2022 gs = sum_list ?c div int (length ?c)"
    using gs by (simp add: general_stats_spec_def Let_def mean_of_def n9)
  have t: "total_enrollment_2022 gs = sum_list ?c"
    using gs by (simp add: general_stats_spec_def Let_def n9)
  show ?thesis
    using floor_div_bounds [OF n, of "sum_list ?c"] m t by simp
qed

theorem general_stats_2022_floor_witness:
  "calculate_general_statistics
     (((replicate 9 (Some 4) @ [None]) # replicate 2 (replicate 9 (Some 4) @ [Some 5])) #
      replicate 19 (replicate 3 (replicate 9 (Some 4) @ [Some 5]))) =
   Inr \<lparr>mean_enrollment_2013 = 4, mean_enrollment_2022 = 5, total_enrollment_2022 = 295,
        highest_yearly_enrollment = 5, lowest_yearly_enrollment = 4\<rparr>
   \<and> 5 * 59 \<le> (295::int) \<and> (295::int) < (5 + 1) * 59"
proof -
  let ?a = "((replicate 9 (Some 4) @ [None]) # replicate 2 (replicate 9 (Some 4) @ [Some 5])) #
            replicate 19 (replicate 3 (replicate 9 (Some (4::int)) @ [Some 5]))"
  have sh: "has_shape num_schools num_grades num_years ?a" by (simp add: has_shape_def)
  have r: "calculate_general_statistics ?a =
     Inr \<lparr>mean_enrollment_2013 = 4, mean_enrollment_2022 = 5, total_enrollment_2022 = 295,
        highest_yearly_enrollment = 5, lowest_yearly_enrollment = 4\<rparr>"
    by code_simp
  have c: "length (present (map (\<lambda>row. row ! 9) (concat ?a))) = 59"
    by code_simp
  from general_stats_2022_floor [OF sh r] r c show ?thesis by simp
qed

end
