(* ===== verification/Resolver.thy ===== *)
theory Resolver
  imports Loader
begin

text \<open>
  \<open>get_school\<close> (lines 45--76 of \<open>school_data.py\<close>): a school name or code to the
  school's index. The Python function dispatches on the run-time type of its argument;
  the model makes that type a datatype with a constructor for \<open>str\<close>, one for
  \<open>int\<close> and one for everything else (\<open>float\<close>, \<open>bool\<close>, \<open>None\<close>, ...:
  \<open>type(x) == int\<close> is false for \<open>True\<close>).
\<close>

datatype py_value = PyStr string | PyInt int | PyOther

text \<open>\<open>xs.index(x)\<close>: the position of the first occurrence (only called after \<open>x in xs\<close>).\<close>

fun list_index :: "'a list \<Rightarrow> 'a \<Rightarrow> nat" where
  "list_index [] x = 0"
| "list_index (y # ys) x = (if y = x then 0 else Suc (list_index ys x))"

definition get_school_in :: "string list \<Rightarrow> int list \<Rightarrow> py_value \<Rightarrow> nat result" where
  "get_school_in names codes school_input =
     (case school_input of
        PyStr s \<Rightarrow> if s \<in> set names then Inr (list_index names s) else Inl InvalidSchool
      | PyInt n \<Rightarrow> if n \<in> set codes then Inr (list_index codes n) else Inl InvalidSchool
      | PyOther \<Rightarrow> Inl InvalidSchool)"

definition get_school :: "py_value \<Rightarrow> nat result" where
  "get_school school_input = get_school_in school_names school_codes school_input"

section \<open>Lemmas\<close>

lemma list_index_less: "x \<in> set xs \<Longrightarrow> list_index xs x < length xs"
  by (induction xs) auto

lemma nth_list_index: "x \<in> set xs \<Longrightarrow> xs ! list_index xs x = x"
  by (induction xs) auto

lemma list_index_first: "j < list_index xs x \<Longrightarrow> xs ! j \<noteq> x"
proof (induction xs arbitrary: j)
  case Nil
  then show ?case by simp
next
  case (Cons y ys)
  then show ?case by (cases j) (auto split: if_splits)
qed

lemma list_index_nth_distinct: "distinct xs \<Longrightarrow> i < length xs \<Longrightarrow> list_index xs (xs ! i) = i"
proof (induction xs arbitrary: i)
  case Nil
  then show ?case by simp
next
  case (Cons y ys)
  then show ?case by (cases i) auto
qed

lemma get_school_in_Inr:
  "get_school_in names codes v = Inr i \<Longrightarrow>
   (\<exists>s. v = PyStr s \<and> s \<in> set names \<and> i = list_index names s) \<or>
   (\<exists>n. v = PyInt n \<and> n \<in> set codes \<and> i = list_index codes n)"
  by (cases v) (auto simp: get_school_in_def split: if_splits)

lemma get_school_in_Inl:
  "get_school_in names codes v = Inl e \<Longrightarrow> e = InvalidSchool"
  by (cases v) (auto simp: get_school_in_def split: if_splits)

lemma get_school_less: "get_school v = Inr i \<Longrightarrow> i < num_schools"
  unfolding get_school_def
  by (auto dest!: get_school_in_Inr dest: list_index_less simp: school_names_def school_codes_def)

lemma directory_facts:
  "distinct school_names" "distinct school_codes" "length school_names = 20"
  by (simp_all add: school_names_def school_codes_def)

section \<open>Properties of the resolver\<close>

text \<open>
  C1. For every school of the directory, resolving its name and resolving its code give
  the same index: the school's own position in the index-aligned lists.
\<close>

theorem get_school_name_code_agree:
  "i < num_schools \<Longrightarrow>
   get_school (PyStr (school_names ! i)) = Inr i \<and> get_school (PyInt (school_codes ! i)) = Inr i"
  using directory_facts
  by (simp add: get_school_def get_school_in_def list_index_nth_distinct num_schools_def)

theorem get_school_name_code_agree_witness:
  "get_school (PyStr ''National Sport School'') = Inr 11 \<and> get_school (PyInt 9830) = Inr 11"
  using get_school_name_code_agree [of 11] by (simp add: school_names_def school_codes_def)

text \<open>
  C2. A successful resolution returns an index of the directory, and the input was that
  school's exact name or its code.
\<close>

theorem get_school_sound:
  "get_school v = Inr i \<Longrightarrow>
   i < num_schools \<and> (v = PyStr (school_names ! i) \<or> v = PyInt (school_codes ! i))"
  unfolding get_school_def
  by (auto dest!: get_school_in_Inr dest: list_index_less simp: nth_list_index directory_facts)

theorem get_school_sound_witness:
  "get_school (PyInt 1224) = Inr 0 \<and> 0 < num_schools \<and>
   (PyInt 1224 = PyStr (school_names ! 0) \<or> PyInt 1224 = PyInt (school_codes ! 0))"
proof -
  have r: "get_school (PyInt 1224) = Inr 0"
    by (simp add: get_school_def get_school_in_def school_codes_def)
  from get_school_sound [OF r] r show ?thesis by simp
qed

text \<open>
  C3. \<open>get_school\<close> raises exactly when the input is neither a name nor a code of the
  directory, compared exactly (no case or whitespace normalisation), and every such raise is
  the ValueError "Please enter a valid school name or code."; any input that is neither a
  \<open>str\<close> nor an \<open>int\<close> raises it too.
\<close>

theorem get_school_error:
  "get_school v = Inl e \<longleftrightarrow>
   e = InvalidSchool \<and> v \<notin> PyStr ` set school_names \<and> v \<notin> PyInt ` set school_codes"
  by (cases v) (auto simp: get_school_def get_school_in_def)

theorem get_school_error_witness:
  "get_school PyOther = Inl InvalidSchool \<and>
   get_school (PyStr ''centennial high school'') = Inl InvalidSchool \<and>
   get_school (PyInt 1225) = Inl InvalidSchool"
  using get_school_error [of PyOther InvalidSchool]
    get_school_error [of "PyStr ''centennial high school''" InvalidSchool]
    get_school_error [of "PyInt 1225" InvalidSchool]
  by (simp add: school_names_def school_codes_def)

end
