(* ===== verification/Median.thy ===== *)
theory Median
  imports Resolver
begin

text \<open>
  \<open>median_enrollment_over_500\<close> (lines 78--105): resolve the school, keep the cells of its
  slice that are greater than 500 (\<open>school_enrollment[school_enrollment > 500]\<close>; a NaN
  compares false and is dropped), and report either that there are none or the median,
  rounded down. The function prints its result and returns \<open>None\<close>; the model returns
  what it prints, as a value of \<open>median_report\<close>.
\<close>

datatype median_report = NoEnrollmentsOver500 | MedianOver500 int

text \<open>
  \<open>np.median\<close>: the middle value of the sorted data, or the mean of the two middle values
  when their number is even; NaN (\<open>None\<close>) for no data.
\<close>

definition np_median :: "int list \<Rightarrow> rat option" where
  "np_median xs =
     (if xs = [] then None
      else let s = sort xs; n = length s in
        if odd n then Some (of_int (s ! (n div 2)))
        else Some (of_int (s ! (n div 2 - 1) + s ! (n div 2)) / 2))"

text \<open>The boolean-mask selection, in numpy's row-major order.\<close>

definition over_500 :: "cell list list \<Rightarrow> int list" where
  "over_500 se = filter (\<lambda>x. 500 < x) (present (concat se))"

definition median_enrollment_over_500 :: "py_value \<Rightarrow> enrollment \<Rightarrow> median_report result" where
  "median_enrollment_over_500 school_input arr =
     bindE (get_school school_input) (\<lambda>school_index.
     bindE (py_index arr (int school_index)) (\<lambda>school_enrollment.
     let enrollments_over_500 = over_500 school_enrollment in
     if length enrollments_over_500 = 0 then Inr NoEnrollmentsOver500
     else bindE (py_int (np_floor (np_median enrollments_over_500))) (\<lambda>m.
          Inr (MedianOver500 m))))"

text \<open>The rounded-down median as the code computes it, stated on the sorted data.\<close>

definition median_floor :: "int list \<Rightarrow> int" where
  "median_floor xs =
     (let s = sort xs; n = length s in
      if odd n then s ! (n div 2) else (s ! (n div 2 - 1) + s ! (n div 2)) div 2)"

section \<open>Lemmas\<close>

lemma floor_half: "\<lfloor>(of_int a / 2 :: rat)\<rfloor> = a div 2"
  using floor_divide_of_int_eq [of a 2, where 'a = rat] by simp

lemma np_median_floor:
  "xs \<noteq> [] \<Longrightarrow> py_int (np_floor (np_median xs)) = Inr (median_floor xs)"
  by (simp add: np_median_def median_floor_def Let_def floor_half del: of_int_add)

lemma median_floor_between:
  assumes "xs \<noteq> []"
  shows "sort xs ! ((length xs - 1) div 2) \<le> median_floor xs \<and>
         median_floor xs \<le> sort xs ! (length xs div 2)"
proof -
  let ?s = "sort xs" and ?n = "length xs"
  have srt: "sorted ?s" and len: "length ?s = ?n" by simp_all
  have n: "0 < ?n" using assms by simp
  show ?thesis
  proof (cases "odd ?n")
    case True
    then have "(?n - 1) div 2 = ?n div 2" by presburger
    with True show ?thesis by (simp add: median_floor_def Let_def)
  next
    case False
    then have two: "2 \<le> ?n" using n by presburger
    have eq: "(?n - 1) div 2 = ?n div 2 - 1" using False n by presburger
    have le: "?s ! (?n div 2 - 1) \<le> ?s ! (?n div 2)"
      using srt two by (intro sorted_nth_mono) simp_all
    have "?s ! (?n div 2 - 1) \<le> (?s ! (?n div 2 - 1) + ?s ! (?n div 2)) div 2"
         "(?s ! (?n div 2 - 1) + ?s ! (?n div 2)) div 2 \<le> ?s ! (?n div 2)"
      using le by linarith+
    with False eq show ?thesis by (simp add: median_floor_def Let_def)
  qed
qed

lemma count_from_take:
  "j \<le> length s \<Longrightarrow> (\<forall>x\<in>set (take j s). P x) \<Longrightarrow> j \<le> length (filter P s)"
proof -
  assume j: "j \<le> length s" and all: "\<forall>x\<in>set (take j s). P x"
  have "length (filter P s) = length (filter P (take j s)) + length (filter P (drop j s))"
    by (metis append_take_drop_id filter_append length_append)
  moreover have "filter P (take j s) = take j s" using all by simp
  ultimately show ?thesis using j by simp
qed

lemma count_from_drop:
  "(\<forall>x\<in>set (drop j s). P x) \<Longrightarrow> length s - j \<le> length (filter P s)"
proof -
  assume all: "\<forall>x\<in>set (drop j s). P x"
  have "length (filter P s) = length (filter P (take j s)) + length (filter P (drop j s))"
    by (metis append_take_drop_id filter_append length_append)
  moreover have "filter P (drop j s) = drop j s" using all by simp
  ultimately show ?thesis by simp
qed

lemma length_filter_sort: "length (filter P (sort xs)) = length (filter P xs)"
  by (simp add: filter_sort)

lemma sorted_take_le:
  "sorted s \<Longrightarrow> k < length s \<Longrightarrow> x \<in> set (take (Suc k) s) \<Longrightarrow> x \<le> s ! k"
  by (auto simp: in_set_conv_nth intro!: sorted_nth_mono)

lemma sorted_drop_ge:
  "sorted s \<Longrightarrow> x \<in> set (drop k s) \<Longrightarrow> s ! k \<le> x"
  by (auto simp: in_set_conv_nth intro!: sorted_nth_mono)

text \<open>The rounded-down median has at least half of the data on each side.\<close>

lemma median_floor_halves:
  assumes "xs \<noteq> []"
  shows "length xs \<le> 2 * length (filter (\<lambda>x. x \<le> median_floor xs) xs) \<and>
         length xs \<le> 2 * length (filter (\<lambda>x. median_floor xs \<le> x) xs)"
proof -
  let ?s = "sort xs" and ?n = "length xs" and ?m = "median_floor xs"
  have srt: "sorted ?s" and len: "length ?s = ?n" by simp_all
  have n: "0 < ?n" using assms by simp
  have b: "?s ! ((?n - 1) div 2) \<le> ?m" "?m \<le> ?s ! (?n div 2)"
    using median_floor_between [OF assms] by simp_all
  have k: "(?n - 1) div 2 < length ?s" unfolding len using n by presburger
  have "\<forall>x\<in>set (take (Suc ((?n - 1) div 2)) ?s). x \<le> ?m"
  proof
    fix x assume "x \<in> set (take (Suc ((?n - 1) div 2)) ?s)"
    then have "x \<le> ?s ! ((?n - 1) div 2)" by (rule sorted_take_le [OF srt k])
    with b(1) show "x \<le> ?m" by simp
  qed
  moreover have "Suc ((?n - 1) div 2) \<le> length ?s" using k by simp
  ultimately have lo: "Suc ((?n - 1) div 2) \<le> length (filter (\<lambda>x. x \<le> ?m) ?s)"
    using count_from_take by blast
  have "\<forall>x\<in>set (drop (?n div 2) ?s). ?m \<le> x"
    using sorted_drop_ge [OF srt] b(2) by fastforce
  then have hi: "?n - ?n div 2 \<le> length (filter (\<lambda>x. ?m \<le> x) ?s)"
    using len count_from_drop by metis
  show ?thesis
    using lo hi n by (simp add: length_filter_sort) linarith
qed

lemma median_enrollment_over_500_idx:
  "get_school v = Inr idx \<Longrightarrow> idx < length arr \<Longrightarrow>
   median_enrollment_over_500 v arr =
     (if over_500 (arr ! idx) = [] then Inr NoEnrollmentsOver500
      else Inr (MedianOver500 (median_floor (over_500 (arr ! idx)))))"
  by (simp add: median_enrollment_over_500_def np_median_floor)

lemma median_enrollment_over_500_Median:
  "median_enrollment_over_500 v arr = Inr (MedianOver500 m) \<Longrightarrow> get_school v = Inr idx \<Longrightarrow>
   idx < length arr \<and> over_500 (arr ! idx) \<noteq> [] \<and> m = median_floor (over_500 (arr ! idx))"
  by (auto simp: median_enrollment_over_500_def np_median_floor Let_def split: if_splits)

lemma sort_nth_in_set: "k < length xs \<Longrightarrow> sort xs ! k \<in> set xs"
  by (metis length_sort nth_mem set_sort)

lemma median_floor_range:
  assumes "xs \<noteq> []"
  shows "Min (set xs) \<le> median_floor xs \<and> median_floor xs \<le> Max (set xs)"
proof -
  let ?n = "length xs"
  have n: "0 < ?n" using assms by simp
  then have k1: "(?n - 1) div 2 < ?n" and k2: "?n div 2 < ?n" by presburger+
  have "Min (set xs) \<le> sort xs ! ((?n - 1) div 2)"
    using sort_nth_in_set [OF k1] by simp
  moreover have "sort xs ! (?n div 2) \<le> Max (set xs)"
    using sort_nth_in_set [OF k2] by simp
  ultimately show ?thesis using median_floor_between [OF assms] by linarith
qed

lemma over_500_Nil_iff: "over_500 se = [] \<longleftrightarrow> (\<forall>x\<in>set (present (concat se)). x \<le> 500)"
  by (auto simp: over_500_def filter_empty_conv not_less)

lemma sort_over_500:
  "mset (concat se) = mset (concat se') \<Longrightarrow> sort (over_500 se) = sort (over_500 se')"
proof -
  assume "mset (concat se) = mset (concat se')"
  then have "mset (present (concat se)) = mset (present (concat se'))" by (rule mset_present)
  then have "mset (over_500 se) = mset (over_500 se')" by (simp add: over_500_def mset_filter)
  then show ?thesis by (intro properties_for_sort) simp_all
qed

lemma median_floor_sort: "sort xs = sort ys \<Longrightarrow> median_floor xs = median_floor ys"
  by (simp add: median_floor_def)

section \<open>Properties of median_enrollment_over_500\<close>

text \<open>
  C15. A reported median is a whole number greater than 500 (at least 501), between the
  smallest and the largest of the school's enrollments over 500.
\<close>

theorem median_over_500_bounds:
  assumes idx: "get_school v = Inr idx"
    and m: "median_enrollment_over_500 v arr = Inr (MedianOver500 m)"
  shows "500 < m \<and> Min (set (over_500 (arr ! idx))) \<le> m \<and> m \<le> Max (set (over_500 (arr ! idx)))"
proof -
  let ?e = "over_500 (arr ! idx)"
  from median_enrollment_over_500_Median [OF m idx] have ne: "?e \<noteq> []"
    and meq: "m = median_floor ?e" by simp_all
  have rng: "Min (set ?e) \<le> m \<and> m \<le> Max (set ?e)"
    using median_floor_range [OF ne] meq by simp
  have "Min (set ?e) \<in> set ?e" using ne by (intro Min_in) auto
  then have "500 < Min (set ?e)" by (simp add: over_500_def)
  with rng show ?thesis by simp
qed

theorem median_over_500_bounds_witness:
  "get_school (PyInt 1224) = Inr 0 \<and>
   median_enrollment_over_500 (PyInt 1224)
     [[[Some 600, None, Some 501], [Some 700, Some 800, Some 100], [Some 3]]] = Inr (MedianOver500 650)
   \<and> 500 < (650::int) \<and> Min (set [600, 501, 700, 800]) \<le> (650::int) \<and> (650::int) \<le> Max (set [600, 501, 700, 800])"
proof -
  have i: "get_school (PyInt 1224) = Inr 0"
    by (simp add: get_school_def get_school_in_def school_codes_def)
  have r: "median_enrollment_over_500 (PyInt 1224)
     [[[Some 600, None, Some 501], [Some 700, Some 800, Some 100], [Some 3]]] = Inr (MedianOver500 650)"
    by code_simp
  have o: "over_500 ([[[Some 600, None, Some 501], [Some 700, Some 800, Some 100], [Some (3::int)]]] ! 0)
           = [600, 501, 700, 800]"
    by (simp add: over_500_def)
  from median_over_500_bounds [OF i r] i r o show ?thesis by simp
qed

text \<open>
  C16. For a resolved school of the array, the report says there are no enrollments over
  500 exactly when every valid cell of the school's slice is at most 500.
\<close>

theorem median_over_500_none_iff:
  assumes "get_school v = Inr idx" and "idx < length arr"
  shows "median_enrollment_over_500 v arr = Inr NoEnrollmentsOver500 \<longleftrightarrow>
         (\<forall>x. Some x \<in> set (concat (arr ! idx)) \<longrightarrow> x \<le> 500)"
proof -
  have "over_500 (arr ! idx) = [] \<longleftrightarrow> (\<forall>x. Some x \<in> set (concat (arr ! idx)) \<longrightarrow> x \<le> 500)"
    unfolding over_500_def filter_empty_conv by (metis in_set_present not_less)
  then show ?thesis using median_enrollment_over_500_idx [OF assms] by simp
qed

theorem median_over_500_none_iff_witness:
  "get_school (PyStr ''Centennial High School'') = Inr 0 \<and> 0 < length [[[Some 60, None, Some (51::int)]]]
   \<and> median_enrollment_over_500 (PyStr ''Centennial High School'') [[[Some 60, None, Some 51]]] =
       Inr NoEnrollmentsOver500"
proof -
  have i: "get_school (PyStr ''Centennial High School'') = Inr 0"
    by (simp add: get_school_def get_school_in_def school_names_def)
  have l: "0 < length [[[Some 60, None, Some (51::int)]]]" by simp
  from median_over_500_none_iff [OF i l] i show ?thesis by auto
qed

text \<open>
  C17. The reported value is a median of the enrollments over 500: at least half of them
  are at most the value and at least half are at least the value.
\<close>

theorem median_over_500_is_median:
  assumes idx: "get_school v = Inr idx"
    and m: "median_enrollment_over_500 v arr = Inr (MedianOver500 m)"
  shows "length (over_500 (arr ! idx)) \<le> 2 * length (filter (\<lambda>x. x \<le> m) (over_500 (arr ! idx))) \<and>
         length (over_500 (arr ! idx)) \<le> 2 * length (filter (\<lambda>x. m \<le> x) (over_500 (arr ! idx)))"
proof -
  from median_enrollment_over_500_Median [OF m idx]
  have ne: "over_500 (arr ! idx) \<noteq> []" and meq: "m = median_floor (over_500 (arr ! idx))"
    by simp_all
  show ?thesis using median_floor_halves [OF ne] meq by simp
qed

theorem median_over_500_is_median_witness:
  "get_school (PyInt 1224) = Inr 0 \<and>
   median_enrollment_over_500 (PyInt 1224)
     [[[Some 600, None, Some 501], [Some 700, Some 800, Some 100], [Some 3]]] = Inr (MedianOver500 650)
   \<and> (4::nat) \<le> 2 * length (filter (\<lambda>x. x \<le> (650::int)) [600, 501, 700, 800])"
proof -
  have i: "get_school (PyInt 1224) = Inr 0"
    by (simp add: get_school_def get_school_in_def school_codes_def)
  have r: "median_enrollment_over_500 (PyInt 1224)
     [[[Some 600, None, Some 501], [Some 700, Some 800, Some 100], [Some 3]]] = Inr (MedianOver500 650)"
    by code_simp
  have o: "over_500 ([[[Some 600, None, Some 501], [Some 700, Some 800, Some 100], [Some (3::int)]]] ! 0)
           = [600, 501, 700, 800]"
    by (simp add: over_500_def)
  from median_over_500_is_median [OF i r] i r o show ?thesis by simp
qed

text \<open>
  C18. \<open>median_enrollment_over_500\<close> raises only the resolver's ValueError for an unknown
  school, or IndexError when the resolved index is outside the array; it never raises on
  NaN, since the empty selection is reported before a median is taken.
\<close>

theorem median_over_500_error:
  "median_enrollment_over_500 v arr = Inl e \<longleftrightarrow>
   (e = InvalidSchool \<and> get_school v = Inl InvalidSchool) \<or>
   (e = IndexError \<and> (\<exists>idx. get_school v = Inr idx \<and> length arr \<le> idx))"
proof (cases "get_school v")
  case (Inl e')
  then have "e' = InvalidSchool"
    by (simp add: get_school_def get_school_in_Inl)
  with Inl show ?thesis by (auto simp: median_enrollment_over_500_def)
next
  case (Inr idx)
  then show ?thesis
    by (auto simp: median_enrollment_over_500_def np_median_floor Let_def split: if_splits)
qed

theorem median_over_500_error_witness:
  "median_enrollment_over_500 (PyInt 9865) [[[Some 600]]] = Inl IndexError \<and>
   median_enrollment_over_500 PyOther [[[Some 600]]] = Inl InvalidSchool"
proof -
  have a: "get_school (PyInt 9865) = Inr 19"
    by (simp add: get_school_def get_school_in_def school_codes_def)
  have b: "get_school PyOther = Inl InvalidSchool"
    by (simp add: get_school_def get_school_in_def)
  show ?thesis
    using median_over_500_error [of "PyInt 9865" "[[[Some 600]]]" IndexError]
      median_over_500_error [of PyOther "[[[Some 600]]]" InvalidSchool] a b
    by auto
qed

text \<open>
  C29. The median report of a school depends only on the multiset of its cells: moving
  enrollments between grades and years of the school, or changing other schools, does not
  change what \<open>median_enrollment_over_500\<close> reports.
\<close>

theorem median_over_500_permutation:
  assumes gs: "get_school v = Inr i" and i: "i < length arr" and i': "i < length arr'"
    and perm: "mset (concat (arr ! i)) = mset (concat (arr' ! i))"
  shows "median_enrollment_over_500 v arr = median_enrollment_over_500 v arr'"
proof -
  have s: "sort (over_500 (arr ! i)) = sort (over_500 (arr' ! i))"
    using perm by (rule sort_over_500)
  then have "over_500 (arr ! i) = [] \<longleftrightarrow> over_500 (arr' ! i) = []"
    by (metis length_0_conv length_sort)
  moreover have "median_floor (over_500 (arr ! i)) = median_floor (over_500 (arr' ! i))"
    using s by (rule median_floor_sort)
  ultimately show ?thesis
    by (simp add: median_enrollment_over_500_idx [OF gs i] median_enrollment_over_500_idx [OF gs i'])
qed

theorem median_over_500_permutation_witness:
  "median_enrollment_over_500 (PyInt 1224) [[[Some 600, Some 700], [Some 800, None]]] =
   median_enrollment_over_500 (PyInt 1224) [[[None, Some 800], [Some 700, Some 600]]]"
proof -
  have gs: "get_school (PyInt 1224) = Inr 0"
    by (simp add: get_school_def get_school_in_def school_codes_def)
  have "mset (concat ([[[Some 600, Some 700], [Some 800, None]]] ! 0)) =
        mset (concat ([[[None, Some 800], [Some 700, Some (600::int)]]] ! 0))" by simp
  from median_over_500_permutation [OF gs _ _ this] show ?thesis by simp
qed

end
