(* ===== verification/Prompt.thy ===== *)
theory Prompt
  imports Resolver
begin

text \<open>
  The interactive part of \<open>main\<close> (lines 188--207): read a line, try \<open>int()\<close> on it,
  resolve the result with \<open>get_school\<close>, and on a ValueError print the message and ask
  again. Python's \<open>int(str)\<close> and \<open>str(int)\<close> are modelled on ASCII text: \<open>int\<close>
  strips Python whitespace from both ends, accepts one optional sign and decimal digits with
  single underscores between them; non-ASCII digits and spaces, which Python also accepts,
  are not modelled. Standard output is a list of writes: each prompt of \<open>input()\<close> and
  each \<open>print\<close> (without its final newline).
\<close>

section \<open>str(int) and int(str)\<close>

fun show_nat :: "nat \<Rightarrow> string" where
  "show_nat n =
     (if n < 10 then [char_of (48 + n)] else show_nat (n div 10) @ [char_of (48 + n mod 10)])"

definition show_int :: "int \<Rightarrow> string" where
  "show_int i = (if i < 0 then CHR ''-'' # show_nat (nat (- i)) else show_nat (nat i))"

definition py_isspace :: "char \<Rightarrow> bool" where
  "py_isspace c \<longleftrightarrow>
     c \<in> set [CHR '' '', CHR 0x09, CHR 0x0A, CHR 0x0B, CHR 0x0C, CHR 0x0D,
              CHR 0x1C, CHR 0x1D, CHR 0x1E, CHR 0x1F]"

definition py_strip :: "string \<Rightarrow> string" where
  "py_strip s = rev (dropWhile py_isspace (rev (dropWhile py_isspace s)))"

definition is_digit :: "char \<Rightarrow> bool" where
  "is_digit c \<longleftrightarrow> 48 \<le> (of_char c :: nat) \<and> (of_char c :: nat) \<le> 57"

fun no_double_underscore :: "string \<Rightarrow> bool" where
  "no_double_underscore (c # d # cs) =
     (\<not> (c = CHR ''_'' \<and> d = CHR ''_'') \<and> no_double_underscore (d # cs))"
| "no_double_underscore cs = True"

text \<open>A digit string: digits and underscores, starting and ending with a digit, no \<open>__\<close>.\<close>

definition valid_digits :: "string \<Rightarrow> bool" where
  "valid_digits s \<longleftrightarrow>
     s \<noteq> [] \<and> list_all (\<lambda>c. is_digit c \<or> c = CHR ''_'') s \<and> is_digit (hd s) \<and>
     is_digit (last s) \<and> no_double_underscore s"

fun digits_acc :: "nat \<Rightarrow> string \<Rightarrow> nat" where
  "digits_acc acc [] = acc"
| "digits_acc acc (c # cs) =
     digits_acc (if c = CHR ''_'' then acc else 10 * acc + (of_char c - 48)) cs"

definition py_int_of_str :: "string \<Rightarrow> int option" where
  "py_int_of_str s =
     (case py_strip s of
        [] \<Rightarrow> None
      | c # r \<Rightarrow>
          if c = CHR ''-'' then (if valid_digits r then Some (- int (digits_acc 0 r)) else None)
          else if c = CHR ''+'' then (if valid_digits r then Some (int (digits_acc 0 r)) else None)
          else if valid_digits (c # r) then Some (int (digits_acc 0 (c # r))) else None)"

section \<open>The prompt loop\<close>

definition prompt_text :: string where
  "prompt_text = ''Please enter the highschool name or school code: ''"

definition invalid_school_msg :: string where
  "invalid_school_msg = ''Please enter a valid school name or code.''"

text \<open>\<open>str(e)\<close> of the exceptions the loop can catch.\<close>

definition error_message :: "error \<Rightarrow> string" where
  "error_message e = (case e of InvalidSchool \<Rightarrow> invalid_school_msg | _ \<Rightarrow> [])"

text \<open>\<open>try: school_input = int(school_input) except ValueError: pass\<close>.\<close>

definition parse_query :: "string \<Rightarrow> py_value" where
  "parse_query line = (case py_int_of_str line of Some n \<Rightarrow> PyInt n | None \<Rightarrow> PyStr line)"

text \<open>
  The \<open>while True\<close> loop over the lines of standard input: the written prompts and
  messages, and either \<open>EOFError\<close> (the input ran out) or the parsed query, the resolved
  index and the unread lines.
\<close>

fun query_loop :: "string list \<Rightarrow> string list \<times> (py_value \<times> nat \<times> string list) result" where
  "query_loop [] = ([prompt_text], Inl EOFError)"
| "query_loop (line # lines) =
     (let q = parse_query line in
      case get_school q of
        Inr idx \<Rightarrow> ([prompt_text], Inr (q, idx, lines))
      | Inl e \<Rightarrow> (let (out, r) = query_loop lines in (prompt_text # error_message e # out, r)))"

text \<open>
  The same \<open>while True\<close> loop when standard input never ends (an interactive user): line
  \<open>n\<close> of the input is \<open>inp n\<close>. Nothing bounds the number of iterations, so the loop is a
  partial function: \<open>None\<close> is a loop that never leaves, and a result gives the writes,
  the parsed query, the resolved index and the number of lines read.
\<close>

partial_function (option) query_stream ::
    "(nat \<Rightarrow> string) \<Rightarrow> nat \<Rightarrow> (string list \<times> py_value \<times> nat \<times> nat) option" where
  "query_stream inp n =
     (let q = parse_query (inp n) in
      case get_school q of
        Inr idx \<Rightarrow> Some ([prompt_text], q, idx, Suc n)
      | Inl e \<Rightarrow> Option.bind (query_stream inp (Suc n))
                   (\<lambda>(out, r). Some (prompt_text # error_message e # out, r)))"

section \<open>Lemmas\<close>

declare show_nat.simps [simp del]

lemma digit_char: "(d::nat) < 10 \<Longrightarrow> of_char (char_of (48 + d)) = (48 + d :: nat)"
  by simp

lemma is_digit_char: "(d::nat) < 10 \<Longrightarrow> is_digit (char_of (48 + d))"
  by (simp add: is_digit_def digit_char)

lemma digit_not_underscore: "is_digit c \<Longrightarrow> c \<noteq> CHR ''_''"
  by (auto simp: is_digit_def)

lemma space_below_digits: "py_isspace c \<Longrightarrow> (of_char c :: nat) < 48"
  by (auto simp: py_isspace_def)

lemma digit_not_space: "is_digit c \<Longrightarrow> \<not> py_isspace c"
  using space_below_digits by (fastforce simp: is_digit_def)

lemma digit_not_sign: "is_digit c \<Longrightarrow> c \<noteq> CHR ''-'' \<and> c \<noteq> CHR ''+''"
  by (auto simp: is_digit_def)

lemma show_nat_digits: "list_all is_digit (show_nat n)"
  by (induction n rule: show_nat.induct) (subst show_nat.simps, simp add: is_digit_char)

lemma show_nat_ne [simp]: "show_nat n \<noteq> []"
  by (subst show_nat.simps) simp

lemma digits_acc_append: "digits_acc acc (xs @ ys) = digits_acc (digits_acc acc xs) ys"
  by (induction acc xs rule: digits_acc.induct) auto

lemma digit_char_not_underscore: "(d::nat) < 10 \<Longrightarrow> char_of (48 + d) = CHR ''_'' \<longleftrightarrow> False"
  using is_digit_char digit_not_underscore by blast

lemma digits_acc_digit: "d < 10 \<Longrightarrow> digits_acc acc [char_of (48 + d)] = 10 * acc + d"
  by (simp add: digit_char digit_char_not_underscore)

lemma digits_acc_show_nat: "digits_acc 0 (show_nat n) = n"
proof (induction n rule: show_nat.induct)
  case (1 n)
  show ?case
  proof (cases "n < 10")
    case True
    then show ?thesis by (simp add: show_nat.simps digit_char digit_char_not_underscore)
  next
    case False
    then have "digits_acc 0 (show_nat n) =
               digits_acc (digits_acc 0 (show_nat (n div 10))) [char_of (48 + n mod 10)]"
      by (simp add: show_nat.simps [of n] digits_acc_append)
    also have "\<dots> = 10 * (n div 10) + n mod 10"
      using "1" False by (simp add: digits_acc_digit del: digits_acc.simps)
    finally show ?thesis by simp
  qed
qed

lemma digits_acc_zeros: "digits_acc 0 (replicate k (CHR ''0'') @ s) = digits_acc 0 s"
  by (induction k) (simp_all add: digits_acc_append)

lemma no_double_underscore_digits: "list_all is_digit s \<Longrightarrow> no_double_underscore s"
  by (induction s rule: no_double_underscore.induct) (auto simp: digit_not_underscore)

lemma valid_digits_all: "s \<noteq> [] \<Longrightarrow> list_all is_digit s \<Longrightarrow> valid_digits s"
  by (auto simp: valid_digits_def list_all_iff no_double_underscore_digits)

lemma is_digit_zero: "is_digit (CHR ''0'')"
  by (simp add: is_digit_def)

lemma py_strip_pad:
  assumes "list_all py_isspace w1" and "list_all py_isspace w2"
    and "s \<noteq> []" and "\<not> py_isspace (hd s)" and "\<not> py_isspace (last s)"
  shows "py_strip (w1 @ s @ w2) = s"
proof -
  have "dropWhile py_isspace (s @ w2) = s @ w2"
    using assms(3,4) by (simp add: dropWhile_eq_self_iff)
  then have d1: "dropWhile py_isspace (w1 @ s @ w2) = s @ w2"
    using assms(1) by (simp add: list_all_iff)
  have r: "dropWhile py_isspace (rev s) = rev s"
    using assms(3,5) by (simp add: dropWhile_eq_self_iff hd_rev)
  have "dropWhile py_isspace (rev w2 @ rev s) = dropWhile py_isspace (rev s)"
    by (rule dropWhile_append2) (use assms(2) in \<open>auto simp: list_all_iff\<close>)
  then have d2: "dropWhile py_isspace (rev w2 @ rev s) = rev s" by (simp add: r)
  show ?thesis by (simp add: py_strip_def d1 d2)
qed

section \<open>Properties of the conversion and of the prompt loop\<close>

lemma query_loop_Inr_get_school:
  "snd (query_loop lines) = Inr (q, idx, rest) \<Longrightarrow> get_school q = Inr idx"
proof (induction lines)
  case Nil
  then show ?case by simp
next
  case (Cons line lines)
  then show ?case
    by (cases "get_school (parse_query line)") (auto simp: Let_def split: prod.splits)
qed

lemma get_school_Inl_msg: "get_school q = Inl e \<Longrightarrow> error_message e = invalid_school_msg"
  by (auto simp: get_school_def error_message_def dest: get_school_in_Inl)

lemma py_int_of_str_padded:
  assumes "list_all py_isspace w1" and "list_all py_isspace w2"
  shows "py_int_of_str (w1 @ replicate k (CHR ''0'') @ show_nat n @ w2) = Some (int n)"
proof -
  let ?s = "replicate k (CHR ''0'') @ show_nat n"
  have dig: "list_all is_digit ?s"
    using show_nat_digits [of n] is_digit_zero by (auto simp: list_all_iff)
  have ne: "?s \<noteq> []" by simp
  have hd: "is_digit (hd ?s)" using dig hd_in_set [OF ne] by (metis list_all_iff)
  have lst: "is_digit (last ?s)" using dig last_in_set [OF ne] by (metis list_all_iff)
  have "py_strip (w1 @ ?s @ w2) = ?s"
    using assms ne hd lst digit_not_space by (intro py_strip_pad) auto
  then have st: "py_strip (w1 @ replicate k (CHR ''0'') @ show_nat n @ w2) = ?s" by simp
  obtain c r where cr: "?s = c # r" using ne by (cases ?s) auto
  have sign: "c \<noteq> CHR ''-'' \<and> c \<noteq> CHR ''+''" using hd cr digit_not_sign by simp
  have v: "valid_digits ?s" using ne dig by (rule valid_digits_all)
  have val: "digits_acc 0 ?s = n" by (simp add: digits_acc_zeros digits_acc_show_nat)
  have "py_int_of_str (w1 @ replicate k (CHR ''0'') @ show_nat n @ w2) =
        (if valid_digits ?s then Some (int (digits_acc 0 ?s)) else None)"
    unfolding py_int_of_str_def st using cr sign by simp
  then show ?thesis using v val by simp
qed

lemma py_int_of_str_word:
  assumes ne: "s \<noteq> []" and h: "\<not> py_isspace (hd s)" "\<not> is_digit (hd s)"
    "hd s \<noteq> CHR ''-''" "hd s \<noteq> CHR ''+''" and l: "\<not> py_isspace (last s)"
  shows "py_int_of_str s = None"
proof -
  have "py_strip s = s" using py_strip_pad [of "[]" "[]" s] ne h l by simp
  moreover obtain c r where cr: "s = c # r" using ne by (cases s) auto
  ultimately show ?thesis using h by (simp add: py_int_of_str_def valid_digits_def)
qed

lemma py_int_of_str_names: "list_all (\<lambda>s. py_int_of_str s = None) school_names"
  unfolding school_names_def
  by (simp add: py_int_of_str_word is_digit_def py_isspace_def)

lemma school_codes_pos: "list_all (\<lambda>c. 0 < c) school_codes"
  by (simp add: school_codes_def)

text \<open>
  C19. What the report prints re-selects the school at the prompt: typing the school's name,
  or its code as \<open>str\<close> prints it, surrounded by whitespace and with leading zeros, goes
  through \<open>int(school_input)\<close> and \<open>get_school\<close> in \<open>main\<close> to that school's index.
  No name reads as an integer, and \<open>int()\<close> normalises the padded code before the exact
  code comparison.
\<close>

theorem typed_school_selects:
  assumes i: "i < num_schools" and w1: "list_all py_isspace w1" and w2: "list_all py_isspace w2"
  shows "get_school (parse_query (school_names ! i)) = Inr i \<and>
         get_school (parse_query (w1 @ replicate k (CHR ''0'') @ show_int (school_codes ! i) @ w2)) =
           Inr i"
proof
  have "py_int_of_str (school_names ! i) = None"
    using py_int_of_str_names i directory_facts by (simp add: list_all_iff num_schools_def)
  then show "get_school (parse_query (school_names ! i)) = Inr i"
    using i directory_facts
    by (simp add: parse_query_def get_school_def get_school_in_def list_index_nth_distinct num_schools_def)
next
  let ?c = "school_codes ! i"
  have ci: "?c \<in> set school_codes" using i by (simp add: num_schools_def directory_facts)
  then have "0 < ?c" using school_codes_pos by (simp add: list_all_iff)
  then have sh: "show_int ?c = show_nat (nat ?c)" by (simp add: show_int_def)
  have "py_int_of_str (w1 @ replicate k (CHR ''0'') @ show_int ?c @ w2) = Some ?c"
    using py_int_of_str_padded [OF w1 w2, of k "nat ?c"] \<open>0 < ?c\<close> by (simp add: sh)
  then show "get_school (parse_query (w1 @ replicate k (CHR ''0'') @ show_int ?c @ w2)) = Inr i"
    using i directory_facts
    by (simp add: parse_query_def get_school_def get_school_in_def list_index_nth_distinct num_schools_def)
qed

theorem typed_school_selects_witness:
  "get_school (parse_query ''National Sport School'') = Inr 11 \<and>
   get_school (parse_query '' 09830 '') = Inr 11"
proof -
  have w: "list_all py_isspace '' ''" by (simp add: py_isspace_def)
  have n: "school_names ! 11 = ''National Sport School''" by (simp add: school_names_def)
  have c: "'' '' @ replicate 1 (CHR ''0'') @ show_int (school_codes ! 11) @ '' '' = '' 09830 ''"
    by (simp add: school_codes_def show_int_def show_nat.simps char_of_def bit_0)
  from typed_school_selects [of 11 "'' ''" "'' ''" 1] w show ?thesis
    by (simp only: n c) (simp add: num_schools_def)
qed

text \<open>
  C20. The prompt loop stops at the first line that resolves: every earlier line was
  rejected with one prompt and the message "Please enter a valid school name or code.",
  and the returned query and index are those of that line.
\<close>

theorem query_loop_first_valid:
  "query_loop lines = (out, Inr (q, idx, rest)) \<Longrightarrow>
   \<exists>pre l. lines = pre @ l # rest \<and> q = parse_query l \<and> get_school q = Inr idx \<and>
     list_all (\<lambda>p. get_school (parse_query p) = Inl InvalidSchool) pre \<and>
     out = concat (map (\<lambda>p. [prompt_text, invalid_school_msg]) pre) @ [prompt_text]"
proof (induction lines arbitrary: out)
  case Nil
  then show ?case by simp
next
  case (Cons line lines)
  show ?case
  proof (cases "get_school (parse_query line)")
    case (Inr i)
    with Cons.prems show ?thesis by (auto simp: Let_def intro!: exI [of _ "[]"])
  next
    case (Inl e)
    then have e: "e = InvalidSchool"
      by (simp add: get_school_def get_school_in_Inl)
    obtain out' r where rec: "query_loop lines = (out', r)" by fastforce
    with Cons.prems Inl have r: "r = Inr (q, idx, rest)"
      and out: "out = prompt_text # error_message e # out'"
      by (auto simp: Let_def)
    from Cons.IH [of out'] rec r obtain pre l where
      "lines = pre @ l # rest" "q = parse_query l" "get_school q = Inr idx"
      "list_all (\<lambda>p. get_school (parse_query p) = Inl InvalidSchool) pre"
      "out' = concat (map (\<lambda>p. [prompt_text, invalid_school_msg]) pre) @ [prompt_text]"
      by blast
    with Inl e out show ?thesis
      by (intro exI [of _ "line # pre"] exI [of _ l]) (simp add: error_message_def)
  qed
qed

theorem query_loop_first_valid_witness:
  "query_loop [''foo'', '' 9830'', ''x''] =
     ([prompt_text, invalid_school_msg, prompt_text], Inr (PyInt 9830, 11, [''x'']))
   \<and> [''foo'', '' 9830'', ''x''] = [''foo''] @ '' 9830'' # [''x'']"
proof -
  have r: "query_loop [''foo'', '' 9830'', ''x''] =
     ([prompt_text, invalid_school_msg, prompt_text], Inr (PyInt 9830, 11, [''x'']))"
    by code_simp
  from query_loop_first_valid [OF r] r show ?thesis by simp
qed

text \<open>
  C21. The loop ends in EOFError exactly when no line of the input resolves; it raises
  nothing else (every rejected line is caught and retried).
\<close>

theorem query_loop_error_iff:
  "snd (query_loop lines) = Inl e \<longleftrightarrow>
   e = EOFError \<and> list_all (\<lambda>l. get_school (parse_query l) = Inl InvalidSchool) lines"
proof (induction lines)
  case Nil
  then show ?case by auto
next
  case (Cons line lines)
  show ?case
  proof (cases "get_school (parse_query line)")
    case (Inr i)
    then show ?thesis by (simp add: Let_def)
  next
    case (Inl e')
    then have "e' = InvalidSchool" by (simp add: get_school_def get_school_in_Inl)
    moreover obtain out' r where rec: "query_loop lines = (out', r)" by fastforce
    ultimately show ?thesis using Inl Cons.IH by (simp add: Let_def)
  qed
qed

theorem query_loop_error_iff_witness:
  "snd (query_loop [''Centennial'', ''12'']) = Inl EOFError"
proof -
  have "list_all (\<lambda>l. get_school (parse_query l) = Inl InvalidSchool) [''Centennial'', ''12'']"
    by code_simp
  with query_loop_error_iff [of "[''Centennial'', ''12'']" EOFError] show ?thesis by simp
qed

lemma query_loop_Inl_EOF: "snd (query_loop stdin) = Inl e \<Longrightarrow> e = EOFError"
  by (induction stdin rule: query_loop.induct) (auto simp: Let_def split: sum.splits prod.splits)

lemma query_stream_Some_resolves:
  assumes "query_stream inp n = Some res"
  shows "\<exists>k\<ge>n. \<exists>i. get_school (parse_query (inp k)) = Inr i"
proof (rule query_stream.raw_induct
    [where P = "\<lambda>inp n res. \<exists>k\<ge>n. \<exists>i. get_school (parse_query (inp k)) = Inr i", OF _ assms],
    goal_cases)
  case (1 f inp n res)
  show ?case
  proof (cases "get_school (parse_query (inp n))")
    case (Inr i)
    then show ?thesis by blast
  next
    case (Inl e)
    with 1(2) obtain y where "f inp (Suc n) = Some y"
      by (auto simp: Let_def split: Option.bind_splits)
    then have "\<exists>k\<ge>Suc n. \<exists>i. get_school (parse_query (inp k)) = Inr i" by (rule 1(1))
    then show ?thesis by (meson Suc_leD)
  qed
qed

lemma query_stream_returns:
  "get_school (parse_query (inp (n + d))) = Inr i \<Longrightarrow> \<exists>res. query_stream inp n = Some res"
proof (induction d arbitrary: n)
  case 0
  then show ?case by (subst query_stream.simps) (simp add: Let_def)
next
  case (Suc d)
  from Suc.prems have "get_school (parse_query (inp (Suc n + d))) = Inr i" by simp
  from Suc.IH [OF this] obtain res where "query_stream inp (Suc n) = Some res" by blast
  then show ?case
    by (subst query_stream.simps) (auto simp: Let_def split: sum.splits prod.splits)
qed

text \<open>
  C31. The prompt loop on an unbounded input terminates exactly when some line, from the
  current one on, resolves to a school: it does not stop on its own otherwise.
\<close>

theorem query_stream_terminates:
  "(\<exists>res. query_stream inp n = Some res) \<longleftrightarrow>
   (\<exists>k\<ge>n. \<exists>i. get_school (parse_query (inp k)) = Inr i)"
proof
  assume "\<exists>res. query_stream inp n = Some res"
  then show "\<exists>k\<ge>n. \<exists>i. get_school (parse_query (inp k)) = Inr i"
    using query_stream_Some_resolves by blast
next
  assume "\<exists>k\<ge>n. \<exists>i. get_school (parse_query (inp k)) = Inr i"
  then obtain k i where "n \<le> k" "get_school (parse_query (inp k)) = Inr i" by blast
  then have "get_school (parse_query (inp (n + (k - n)))) = Inr i" by simp
  then show "\<exists>res. query_stream inp n = Some res" by (rule query_stream_returns)
qed

theorem query_stream_terminates_witness:
  "\<exists>res. query_stream (\<lambda>k. if k = 0 then ''Bowness'' else ''9847'') 0 = Some res"
proof -
  have "get_school (parse_query ''9847'') = Inr 13" by code_simp
  then have "\<exists>k::nat\<ge>0. \<exists>i. get_school (parse_query ((\<lambda>k::nat. if k = 0 then ''Bowness'' else ''9847'') k)) = Inr i"
    by (intro exI [of _ "1::nat"]) auto
  then show ?thesis using query_stream_terminates by blast
qed

end
