(* ===== verification/Report.thy ===== *)
theory Report
  imports SchoolStats GeneralStats Median Prompt
begin

text \<open>
  \<open>main\<close> (lines 173--238) and the module as a program. Standard output is the list of
  writes of the run: each \<open>print\<close> is one string (its arguments joined by a space,
  without the final newline) and each \<open>input()\<close> prompt is one string. An exception that
  \<open>main\<close> does not catch ends the run with the output written so far; a failure of the
  module-level loading happens before \<open>main\<close> prints anything.
\<close>

text \<open>\<open>sep.join(parts)\<close>.\<close>

fun join_with :: "string \<Rightarrow> string list \<Rightarrow> string" where
  "join_with sep [] = []"
| "join_with sep [x] = x"
| "join_with sep (x # xs) = x @ sep @ join_with sep xs"

text \<open>\<open>str\<close> of a tuple of ints, as \<open>print\<close> shows \<open>enrollment_data.shape\<close>.\<close>

definition py_tuple_str :: "nat list \<Rightarrow> string" where
  "py_tuple_str ns =
     ''('' @ join_with '', '' (map show_nat ns) @ (if length ns = 1 then '','' else []) @ '')''"

definition newline :: string where
  "newline = [CHR 0x0A]"

definition header_lines :: "string list" where
  "header_lines =
     [''ENSF 692 School Enrollment Statistics'',
      ''Shape of full data array: '' @ py_tuple_str [num_schools, num_grades, num_years],
      ''Dimensions of full data array: 3'']"

text \<open>The Stage 2 lines for school \<open>idx\<close> (lines 214--224).\<close>

definition school_report :: "nat \<Rightarrow> school_stats \<Rightarrow> string list" where
  "school_report idx st =
     [newline @ ''***Requested School Statistics***'' @ newline,
      ''School Name: '' @ school_names ! idx @ '', School Code: '' @ show_int (school_codes ! idx) @ '' '',
      ''Mean enrollment for Grade 10: '' @ show_int (mean_grade_10 st),
      ''Mean enrollment for Grade 11: '' @ show_int (mean_grade_11 st),
      ''Mean enrollment for Grade 12: '' @ show_int (mean_grade_12 st),
      ''Highest enrollment for a single grade: '' @ show_int (highest_enrollment st),
      ''Lowest enrollment for a single grade: '' @ show_int (lowest_enrollment st)] @
     map (\<lambda>(year, t). ''Total enrollment for '' @ year @ '': '' @ show_int t) (yearly_enrollments st) @
     [''Total ten year enrolment: '' @ show_int (total_enrollment_10_years st),
      ''Mean total enrollment over 10 years: '' @ show_int (mean_total_yearly_enrollment st)]"

text \<open>The line printed by \<open>median_enrollment_over_500\<close> (lines 101--105).\<close>

definition median_line :: "median_report \<Rightarrow> string" where
  "median_line r =
     (case r of
        NoEnrollmentsOver500 \<Rightarrow> ''No enrollments over 500.''
      | MedianOver500 m \<Rightarrow> ''For all enrollments over 500, the median value was: '' @ show_int m)"

text \<open>The Stage 3 lines (lines 232--237).\<close>

definition general_report :: "general_stats \<Rightarrow> string list" where
  "general_report g =
     [newline @ ''***General Statistics for All Schools***'' @ newline,
      ''Mean enrollment in 2013: '' @ show_int (mean_enrollment_2013 g),
      ''Mean enrollment in 2022: '' @ show_int (mean_enrollment_2022 g),
      ''Total graduating class of 2022: '' @ show_int (total_enrollment_2022 g),
      ''Highest enrollment for a single grade: '' @ show_int (highest_yearly_enrollment g),
      ''Lowest enrollment for a single grade: '' @ show_int (lowest_yearly_enrollment g)]"

text \<open>
  \<open>main()\<close> on the loaded array and the lines of standard input: the header, the prompt
  loop, the school statistics, the median line, the general statistics; the first
  uncaught exception ends the run.
\<close>

definition main_run :: "enrollment \<Rightarrow> string list \<Rightarrow> string list \<times> unit result" where
  "main_run arr stdin =
     (case query_loop stdin of
        (qout, Inl e) \<Rightarrow> (header_lines @ qout, Inl e)
      | (qout, Inr (school_input, school_index, rest)) \<Rightarrow>
          (case calculate_school_stats arr (int school_index) of
             Inl e \<Rightarrow> (header_lines @ qout, Inl e)
           | Inr st \<Rightarrow>
               (let out2 = header_lines @ qout @ school_report school_index st in
                case median_enrollment_over_500 school_input arr of
                  Inl e \<Rightarrow> (out2, Inl e)
                | Inr mr \<Rightarrow>
                    (let out3 = out2 @ [median_line mr] in
                     case calculate_general_statistics arr of
                       Inl e \<Rightarrow> (out3, Inl e)
                     | Inr g \<Rightarrow> (out3 @ general_report g, Inr ())))))"

text \<open>Importing the module loads the data; running it as a script then calls \<open>main\<close>.\<close>

definition program :: "cell list list \<Rightarrow> string list \<Rightarrow> string list \<times> unit result" where
  "program years_data stdin =
     (case load_enrollment years_data of
        Inl e \<Rightarrow> ([], Inl e)
      | Inr arr \<Rightarrow> main_run arr stdin)"

section \<open>Properties of a run\<close>

lemma py_index_int_Inr: "py_index xs (int k) = Inr x \<Longrightarrow> k < length xs \<and> x = xs ! k"
  by (simp split: if_splits)

lemma calculate_school_stats_index:
  "calculate_school_stats arr (int k) = Inr st \<Longrightarrow> k < length arr"
  using calculate_school_stats_Inr_slice [of arr "int k" st] by (auto split: if_splits)

lemma school_stats_resolved:
  assumes sh: "has_shape num_schools num_grades num_years arr" and gs: "get_school q = Inr idx"
  shows "calculate_school_stats arr (int idx) =
           (if present (arr ! idx ! 0) \<noteq> [] \<and> present (arr ! idx ! 1) \<noteq> [] \<and>
               present (arr ! idx ! 2) \<noteq> []
            then Inr (school_stats_spec years num_years (arr ! idx)) else Inl NaNToInt)"
  using shaped_slice [OF sh, of "int idx"] get_school_less [OF gs]
  by (intro calculate_school_stats_slice) auto

lemma median_resolved:
  "has_shape num_schools num_grades num_years arr \<Longrightarrow> get_school q = Inr idx \<Longrightarrow>
   \<exists>mr. median_enrollment_over_500 q arr = Inr mr"
  using median_enrollment_over_500_idx [of q idx arr] get_school_less [of q idx]
  by (auto simp: has_shape_def)

lemma main_run_prefix: "\<exists>rest. fst (main_run arr stdin) = header_lines @ rest"
  by (auto simp: main_run_def Let_def split: prod.splits sum.splits)

lemma header_lines_ne: "header_lines \<noteq> []"
  by (simp add: header_lines_def)

text \<open>
  C22. A run of \<open>main\<close> that completes prints the header, the prompt dialogue, the
  statistics of the resolved school, the median line of that same school's enrollments
  over 500, and the general statistics: the median is not computed for another school,
  although \<open>median_enrollment_over_500\<close> resolves the school input a second time.
\<close>

theorem main_run_success:
  assumes "main_run arr stdin = (out, Inr u)"
  shows "\<exists>q idx rest st g.
    snd (query_loop stdin) = Inr (q, idx, rest) \<and>
    calculate_school_stats arr (int idx) = Inr st \<and> calculate_general_statistics arr = Inr g \<and>
    out = header_lines @ fst (query_loop stdin) @ school_report idx st @
          [median_line (if over_500 (arr ! idx) = [] then NoEnrollmentsOver500
                        else MedianOver500 (median_floor (over_500 (arr ! idx))))] @
          general_report g"
proof -
  obtain qout r where ql: "query_loop stdin = (qout, r)" by fastforce
  with assms obtain q idx rest where r: "r = Inr (q, idx, rest)"
    by (auto simp: main_run_def split: sum.splits)
  have gs: "get_school q = Inr idx"
    using ql r query_loop_Inr_get_school [of stdin q idx rest] by simp
  from assms ql r obtain st where st: "calculate_school_stats arr (int idx) = Inr st"
    by (auto simp: main_run_def split: sum.splits)
  have lt: "idx < length arr" using st by (rule calculate_school_stats_index)
  have med: "median_enrollment_over_500 q arr =
      (if over_500 (arr ! idx) = [] then Inr NoEnrollmentsOver500
       else Inr (MedianOver500 (median_floor (over_500 (arr ! idx)))))"
    using median_enrollment_over_500_idx [OF gs lt] .
  from assms ql r st med obtain g where g: "calculate_general_statistics arr = Inr g"
    by (auto simp: main_run_def Let_def split: sum.splits if_splits)
  from assms ql r st med g show ?thesis
    by (auto simp: main_run_def Let_def split: if_splits)
qed

theorem main_run_success_witness:
  "main_run (replicate 12 [replicate 10 (Some 600), replicate 10 (Some 501), Some 400 # replicate 9 None])
      [''x'', ''9830''] =
     (fst (main_run (replicate 12 [replicate 10 (Some 600), replicate 10 (Some 501), Some 400 # replicate 9 None])
      [''x'', ''9830'']), Inr ())
   \<and> over_500 [replicate 10 (Some 600), replicate 10 (Some 501), Some (400::int) # replicate 9 None] \<noteq> []"
proof -
  let ?a = "replicate 12 [replicate 10 (Some 600), replicate 10 (Some 501), Some (400::int) # replicate 9 None]"
  have q: "query_loop [''x'', ''9830''] =
      ([prompt_text, invalid_school_msg, prompt_text], Inr (PyInt 9830, 11, []))"
    by code_simp
  have "\<not> isl (calculate_school_stats ?a 11)" by code_simp
  then obtain st where s: "calculate_school_stats ?a 11 = Inr st" by (cases "calculate_school_stats ?a 11") auto
  have m: "median_enrollment_over_500 (PyInt 9830) ?a = Inr (MedianOver500 550)" by code_simp
  have "\<not> isl (calculate_general_statistics ?a)" by code_simp
  then obtain g where g: "calculate_general_statistics ?a = Inr g" by (cases "calculate_general_statistics ?a") auto
  have r: "snd (main_run ?a [''x'', ''9830'']) = Inr ()"
    unfolding main_run_def q using s by (simp add: m g)
  then have r': "main_run ?a [''x'', ''9830''] = (fst (main_run ?a [''x'', ''9830'']), Inr ())"
    by (metis prod.collapse)
  from main_run_success [OF r'] r' show ?thesis by (simp add: over_500_def)
qed

text \<open>
  C23. When the resolved school has a grade with no valid year (an all-NaN row), \<open>main\<close>
  stops with the uncaught ValueError of \<open>int(nan)\<close> right after the prompt dialogue: the
  try block covers the resolution only, not the statistics.
\<close>

theorem main_run_nan_grade_crash:
  assumes sh: "has_shape num_schools num_grades num_years arr"
    and ql: "snd (query_loop stdin) = Inr (q, idx, rest)"
    and k: "k < 3" and nan: "present (arr ! idx ! k) = []"
  shows "main_run arr stdin = (header_lines @ fst (query_loop stdin), Inl NaNToInt)"
proof -
  have gs: "get_school q = Inr idx" using ql by (rule query_loop_Inr_get_school)
  have "\<not> (present (arr ! idx ! 0) \<noteq> [] \<and> present (arr ! idx ! 1) \<noteq> [] \<and> present (arr ! idx ! 2) \<noteq> [])"
  proof -
    have "k = 0 \<or> k = 1 \<or> k = 2" using k by auto
    with nan show ?thesis by auto
  qed
  then have "calculate_school_stats arr (int idx) = Inl NaNToInt"
    using school_stats_resolved [OF sh gs] by simp
  moreover obtain qout where "query_loop stdin = (qout, Inr (q, idx, rest))"
    using ql by (cases "query_loop stdin") auto
  ultimately show ?thesis by (simp add: main_run_def)
qed

theorem main_run_nan_grade_crash_witness:
  "has_shape num_schools num_grades num_years
     (replicate 20 [replicate 10 None, replicate 10 (Some 1), replicate 10 (Some 1)])
   \<and> snd (query_loop [''1224'']) = Inr (PyInt 1224, 0, [])
   \<and> present ((replicate 20 [replicate 10 None, replicate 10 (Some 1), replicate 10 (Some (1::int))]) ! 0 ! 0) = []
   \<and> main_run (replicate 20 [replicate 10 None, replicate 10 (Some 1), replicate 10 (Some 1)]) [''1224''] =
       (header_lines @ fst (query_loop [''1224'']), Inl NaNToInt)"
proof -
  let ?a = "replicate 20 [replicate 10 None, replicate 10 (Some 1), replicate 10 (Some (1::int))]"
  have sh: "has_shape num_schools num_grades num_years ?a" by (simp add: has_shape_def)
  have ql: "snd (query_loop [''1224'']) = Inr (PyInt 1224, 0, [])" by code_simp
  have nan: "present (?a ! 0 ! 0) = []" by simp
  show ?thesis using main_run_nan_grade_crash [OF sh ql _ nan] sh ql nan by simp
qed

text \<open>
  C27. On the program's (20, 3, 10) shape, a run whose input resolves to a school completes
  without an exception when the first year has no NaN cell, the last year has a valid cell,
  and each grade row of the chosen school has a valid value.
\<close>

theorem main_run_completes:
  assumes sh: "has_shape num_schools num_grades num_years arr"
    and y0: "None \<notin> set (map (\<lambda>row. row ! 0) (concat arr))"
    and y9: "present (map (\<lambda>row. row ! 9) (concat arr)) \<noteq> []"
    and ql: "snd (query_loop stdin) = Inr (q, idx, rest)"
    and rows: "\<forall>k<3. present (arr ! idx ! k) \<noteq> []"
  shows "snd (main_run arr stdin) = Inr ()"
proof -
  have gs: "get_school q = Inr idx" using ql by (rule query_loop_Inr_get_school)
  have st: "calculate_school_stats arr (int idx) = Inr (school_stats_spec years num_years (arr ! idx))"
    using school_stats_resolved [OF sh gs] rows by simp
  obtain mr where mr: "median_enrollment_over_500 q arr = Inr mr"
    using median_resolved [OF sh gs] by blast
  have ne: "concat arr \<noteq> []"
  proof
    assume "concat arr = []"
    then have "map (\<lambda>row. row ! 9) (concat arr) = []" by simp
    with y9 show False by simp
  qed
  have g: "calculate_general_statistics arr = Inr (general_stats_spec num_years arr)"
    using calculate_general_statistics_shaped_gen [OF sh] y0 y9 ne by simp
  obtain qout where "query_loop stdin = (qout, Inr (q, idx, rest))"
    using ql by (cases "query_loop stdin") auto
  then show ?thesis using st mr g by (simp add: main_run_def Let_def)
qed

theorem main_run_completes_witness:
  "snd (main_run (replicate 20 [replicate 10 (Some 600), replicate 10 (Some 501), Some 400 # replicate 9 None])
     [''9830'']) = Inr ()"
proof -
  let ?a = "replicate 20 [replicate 10 (Some 600), replicate 10 (Some 501), Some (400::int) # replicate 9 None]"
  have sh: "has_shape num_schools num_grades num_years ?a" by (simp add: has_shape_def)
  have y0: "None \<notin> set (map (\<lambda>row. row ! 0) (concat ?a))" by code_simp
  have y9: "present (map (\<lambda>row. row ! 9) (concat ?a)) \<noteq> []" by code_simp
  have ql: "snd (query_loop [''9830'']) = Inr (PyInt 9830, 11, [])" by code_simp
  have rows: "\<forall>k<3. present (?a ! 11 ! k) \<noteq> []"
  proof (intro allI impI)
    fix k :: nat assume "k < 3"
    then have "k = 0 \<or> k = 1 \<or> k = 2" by auto
    then show "present (?a ! 11 ! k) \<noteq> []" by auto
  qed
  from main_run_completes [OF sh y0 y9 ql rows] show ?thesis .
qed

text \<open>
  C28. The script prints nothing at all exactly when the data is malformed: some yearly block
  does not hold 60 values, or there are more than ten blocks. Otherwise \<open>main\<close> runs and
  prints at least its header.
\<close>

theorem program_silent_iff_malformed:
  "fst (program years_data stdin) = [] \<longleftrightarrow>
   (\<exists>b\<in>set years_data. length b \<noteq> 60) \<or> 10 < length years_data"
proof (cases "load_enrollment years_data")
  case (Inl e)
  then have "\<not> (\<exists>arr. load_enrollment years_data = Inr arr)" by simp
  then have "(\<exists>b\<in>set years_data. length b \<noteq> 60) \<or> 10 < length years_data"
    unfolding load_enrollment_def build_enrollment_Inr_iff by auto
  with Inl show ?thesis by (simp add: program_def)
next
  case (Inr arr)
  then have "(\<forall>b\<in>set years_data. length b = 60) \<and> length years_data \<le> 10"
    using build_enrollment_Inr_iff [of num_schools num_grades num_years years_data]
    by (auto simp: load_enrollment_def)
  moreover have "fst (program years_data stdin) \<noteq> []"
    using Inr main_run_prefix [of arr stdin] header_lines_ne by (auto simp: program_def)
  ultimately show ?thesis by auto
qed

theorem program_silent_iff_malformed_witness:
  "fst (program [replicate 59 (Some 1)] []) = [] \<and> fst (program [] []) \<noteq> []"
  using program_silent_iff_malformed [of "[replicate 59 (Some 1)]" "[]"]
    program_silent_iff_malformed [of "[]" "[]"] by simp

text \<open>
  C30. On the program's (20, 3, 10) shape a run never fails with IndexError, a reshape
  error or an invalid-school error: the only exceptions that can end it are EOFError at
  the prompt, \<open>int(nan)\<close> and \<open>int\<close> of a masked value.
\<close>

theorem main_run_error_kinds:
  assumes sh: "has_shape num_schools num_grades num_years arr"
    and r: "snd (main_run arr stdin) = Inl e"
  shows "e = EOFError \<or> e = NaNToInt \<or> e = MaskedToInt"
proof (cases "query_loop stdin")
  case (Pair qout res)
  show ?thesis
  proof (cases res)
    case (Inl e')
    with Pair r have "snd (query_loop stdin) = Inl e" by (simp add: main_run_def)
    then show ?thesis by (simp add: query_loop_Inl_EOF)
  next
    case (Inr x)
    then obtain q idx rest where x: "res = Inr (q, idx, rest)" by (cases x) auto
    with Pair have gs: "get_school q = Inr idx"
      using query_loop_Inr_get_school [of stdin q idx rest] by simp
    have st: "calculate_school_stats arr (int idx) = Inl NaNToInt \<or>
              (\<exists>s. calculate_school_stats arr (int idx) = Inr s)"
      using school_stats_resolved [OF sh gs] by (auto split: if_splits)
    obtain mr where mr: "median_enrollment_over_500 q arr = Inr mr"
      using median_resolved [OF sh gs] by blast
    have g: "calculate_general_statistics arr = Inl NaNToInt \<or>
             calculate_general_statistics arr = Inl MaskedToInt \<or>
             (\<exists>g. calculate_general_statistics arr = Inr g)"
      using calculate_general_statistics_shaped_gen [OF sh] by (auto split: if_splits)
    from st g r Pair x mr show ?thesis
      by (auto simp: main_run_def Let_def split: sum.splits)
  qed
qed

theorem main_run_error_kinds_witness:
  "has_shape num_schools num_grades num_years (replicate 20 (replicate 3 (replicate 10 (Some 1))))
   \<and> snd (main_run (replicate 20 (replicate 3 (replicate 10 (Some 1)))) []) = Inl EOFError"
proof -
  let ?a = "replicate 20 (replicate 3 (replicate 10 (Some (1::int))))"
  have sh: "has_shape num_schools num_grades num_years ?a" by (simp add: has_shape_def)
  have r: "snd (main_run ?a []) = Inl EOFError" by (simp add: main_run_def)
  from main_run_error_kinds [OF sh r] sh r show ?thesis by simp
qed

end
