(* ===== verification/Spec2Isabelle.thy ===== *)
theory Spec2Isabelle
  imports Report
begin

text \<open>
  \<^bold>\<open>A verification development of \<open>src/school_data.py\<close>.\<close>

  \<^medskip>\<^bold>\<open>The program.\<close> A terminal application over a fixed 3-D numpy array
  \<open>enrollment_data\<close> of 20 schools, 3 grades and 10 years. At import, the module builds
  the array from ten flat yearly blocks of \<open>given_data\<close> (lines 17--42). \<open>main\<close>
  (lines 173--238) then:
  \<^item> prints the shape and the number of dimensions;
  \<^item> prompts until a line resolves to a school, first through \<open>int()\<close> and then
    through \<open>get_school\<close> (lines 45--76);
  \<^item> prints \<open>calculate_school_stats\<close> of that index (lines 109--144);
  \<^item> calls \<open>median_enrollment_over_500\<close> (lines 78--105), which resolves the same input a
    second time;
  \<^item> prints \<open>calculate_general_statistics\<close> (lines 146--170).

  \<^medskip>\<^bold>\<open>Theories and what they model.\<close>
  \<^item> \<open>Prelude\<close>: the collection \<open>nan_simps\<close> and generic facts on integer quotients,
    sums, extremes of finite sets and lists read by index.
  \<^item> \<open>Numpy\<close>: the exceptions (\<open>error\<close>) and the result type \<open>error + 'a\<close>,
    where \<open>bindE\<close> lets the first raise end the computation. It also holds the cell type
    (\<open>int option\<close>, where \<open>None\<close> is NaN), Python indexing \<open>py_index\<close>, and the numpy
    reductions the code calls: \<open>nansum\<close>, \<open>nanmean\<close>, the unmasked \<open>plain_mean\<close>,
    \<open>nanmax\<close>/\<open>nanmin\<close> as folds, \<open>int()\<close> of a float as \<open>py_int\<close>/\<open>trunc_rat\<close>,
    and \<open>np_floor\<close>.
  \<^item> \<open>Loader\<close>: the directory and label lists, \<open>np_zeros\<close>, \<open>reshape\<close> (row-major
    \<open>chunks\<close>, with the size ValueError), the slice assignment \<open>set_year\<close>/
    \<open>store_year\<close> (IndexError past the year axis), and the loop \<open>load_from\<close>.
    \<open>load_enrollment\<close> is the module's loading on arbitrary yearly blocks.
  \<^item> \<open>Resolver\<close>: \<open>get_school\<close>, with the run-time type dispatch as the datatype
    \<open>py_value\<close>.
  \<^item> \<open>SchoolStats\<close>: \<open>calculate_school_stats\<close> as a record, with the yearly dictionary as
    an insertion-ordered association list. \<open>school_stats_spec\<close> is its abstract contract.
  \<^item> \<open>GeneralStats\<close>: \<open>calculate_general_statistics\<close>, with the masked 2022 reductions
    (\<open>ma_int\<close>, \<open>ma_sum\<close>). \<open>general_stats_spec\<close> is its contract.
  \<^item> \<open>Median\<close>: \<open>median_enrollment_over_500\<close>, whose printed outcome is the value
    \<open>median_report\<close>.
  \<^item> \<open>Prompt\<close>: Python's \<open>int(str)\<close> on ASCII text (\<open>py_int_of_str\<close>), \<open>str(int)\<close>
    (\<open>show_int\<close>), and the prompt loop \<open>query_loop\<close> over the list of input lines.
  \<^item> \<open>Report\<close>: the printed lines and \<open>main_run\<close>, the whole of \<open>main\<close>.

  The functions of the source read the global \<open>enrollment_data\<close>. The model passes it
  explicitly as \<open>arr\<close>, and the program's array is \<open>load_enrollment\<close> of the yearly
  blocks. Standard output is the list of writes: one string per \<open>print\<close> or prompt. An
  uncaught exception ends a run with the writes made so far, as a \<open>Inl\<close> outcome.

  \<^medskip>\<^bold>\<open>Numbers.\<close> Cells are whole numbers or NaN. Every mean is computed exactly in
  \<open>rat\<close>, then truncated (\<open>int()\<close>) or floored (\<open>np.floor\<close>) as the code does.
  Enrollment sums are far below \<open>2^53\<close>, so numpy's float sums of them are exact. The one
  rounding step is the float division of a sum by a count (or, in \<open>np.median\<close>, by 2). It is
  modelled by \<open>fp_rounded\<close> (\<open>Numpy\<close>): an integer of magnitude up to \<open>2^53\<close> is
  returned exactly, and any other result is within a relative error of \<open>2^-53\<close>. The lemma
  \<open>nanmean_float_exact\<close> (\<open>Numpy\<close>) shows such a rounded quotient has the same \<open>int()\<close> and \<open>floor\<close> as the exact one. The
  reason is that a quotient \<open>a/n\<close> that is not an integer lies at least \<open>1/n\<close> from one,
  while the rounding error is below \<open>1/n\<close>. So the exact model prints what the program
  prints. Python integers are unbounded, so they are \<open>int\<close>.

  \<^medskip>\<^bold>\<open>Loops and termination.\<close> Every loop of the program is a structural recursion:
  \<^item> \<open>load_from\<close> runs over the yearly blocks;
  \<^item> \<open>yearly_from\<close> runs over the year labels;
  \<^item> \<open>query_loop\<close> runs over the input lines, ending in EOFError once they run out.
  So no fuel is needed for them, and they are total and executable. The same prompt loop on
  an input that never ends (an interactive user) is \<open>query_stream\<close>, a
  \<open>partial_function (option)\<close>, where \<open>None\<close> is a loop that never leaves. Its
  termination is characterised exactly (C31).

  \<^medskip>\<^bold>\<open>What is proved.\<close>
  \<^item> C1--C3 (\<open>Resolver\<close>): name and code agree, soundness, and the exact error cases.
  \<^item> C4--C7 (\<open>Loader\<close>): the reshape/assignment round trip, the shape invariant, when
    loading succeeds, and which error it raises.
  \<^item> C8--C12 (\<open>SchoolStats\<close>):
    \<^item> refinement of the contract, with the exact success condition;
    \<^item> behaviour on the program's shape;
    \<^item> total equals the sum of the yearly entries;
    \<^item> the means as floor divisions;
    \<^item> the means lie between the extremes.
  \<^item> C13, C14 (\<open>GeneralStats\<close>): refinement on the program's shape, including the
    ValueError of a NaN in the 2013 column, and the 2022 floor division.
  \<^item> C15--C18, C29 (\<open>Median\<close>): bounds, when there is no enrollment over 500, that the
    value is a median, the errors, and that the report depends only on the multiset of the
    school's cells.
  \<^item> C19--C21, C31 (\<open>Prompt\<close>): typing a school's name, or its printed code padded with
    whitespace and leading zeros, selects that school; the first-valid-line and EOFError
    behaviour of the loop; the termination of the unbounded loop.
  \<^item> C22, C23, C27, C28, C30 (\<open>Report\<close>): the output of a completed run, the crash on an
    all-NaN grade, the conditions under which a run completes, that the script prints
    nothing exactly when the data is malformed, and that on the program's shape a run fails
    only with EOFError, \<open>int(nan)\<close> or a MaskError.
  \<^item> C24--C26 (below, across the components):
    \<^item> the global extremes are the extremes of the per-school extremes;
    \<^item> the median line says "no enrollment over 500" exactly when the school's highest
      enrollment is at most 500;
    \<^item> the 2022 total is the sum of the schools' 2022 entries.

  \<^medskip>\<^bold>\<open>Not modelled.\<close>
  \<^item> \<open>given_data\<close>: it is not in the repository, so its blocks are a parameter.
  \<^item> Non-ASCII text given to \<open>int()\<close> (Unicode digits and spaces).
  \<^item> Interrupts (\<open>KeyboardInterrupt\<close>).
\<close>

section \<open>Properties spanning the components\<close>

lemma nth_map_upt_2: "map f [0..<2] ! 0 = f 0" "map f [0..<2] ! 1 = f 1"
  by simp_all

text \<open>
  C24. The global statistics and the per-school statistics agree: when the general
  statistics and the statistics of every school succeed, the highest and lowest single-grade
  enrollment of the whole array are the largest of the schools' highest values and the
  smallest of their lowest values.
\<close>

theorem general_extremes_of_schools:
  assumes g: "calculate_general_statistics arr = Inr g" and ne: "arr \<noteq> []"
    and len: "length sts = length arr"
    and sts: "\<forall>i<length arr. calculate_school_stats arr (int i) = Inr (sts ! i)"
  shows "highest_yearly_enrollment g = Max (set (map highest_enrollment sts)) \<and>
         lowest_yearly_enrollment g = Min (set (map lowest_enrollment sts))"
proof -
  let ?A = "\<lambda>i. set (present (concat (arr ! i)))"
  have A: "\<And>i. i \<in> {..<length arr} \<Longrightarrow> finite (?A i) \<and> ?A i \<noteq> {}"
    using sts school_stats_extremes by auto
  have all: "set (present (concat (concat arr))) = (\<Union>i\<in>{..<length arr}. ?A i)"
    by (rule set_present_concat)
  have ex: "highest_enrollment (sts ! i) = Max (?A i) \<and> lowest_enrollment (sts ! i) = Min (?A i)"
    if "i \<in> {..<length arr}" for i
    using sts school_stats_extremes that by blast
  have hi: "set (map highest_enrollment sts) = (\<lambda>i. Max (?A i)) ` {..<length arr}"
    unfolding set_map_nth len using ex by (intro image_cong) simp_all
  have lo: "set (map lowest_enrollment sts) = (\<lambda>i. Min (?A i)) ` {..<length arr}"
    unfolding set_map_nth len using ex by (intro image_cong) simp_all
  have I: "finite {..<length arr}" "{..<length arr} \<noteq> {}" using ne by auto
  show ?thesis
    using general_stats_extremes [OF g] all hi lo Max_UN_Max [OF I A] Min_UN_Min [OF I A]
    by simp
qed
theorem general_extremes_of_schools_witness:
  "highest_yearly_enrollment (projr (calculate_general_statistics [[replicate 10 (Some 100), replicate 9 (Some 200) @ [None], replicate 10 (Some 300)], [replicate 10 (Some 5), replicate 10 (Some 900), replicate 10 (Some (40::int))]])) =
     Max (set (map highest_enrollment (map (\<lambda>i. projr (calculate_school_stats [[replicate 10 (Some 100), replicate 9 (Some 200) @ [None], replicate 10 (Some 300)], [replicate 10 (Some 5), replicate 10 (Some 900), replicate 10 (Some (40::int))]] (int i))) [0..<2]))) \<and>
   lowest_yearly_enrollment (projr (calculate_general_statistics [[replicate 10 (Some 100), replicate 9 (Some 200) @ [None], replicate 10 (Some 300)], [replicate 10 (Some 5), replicate 10 (Some 900), replicate 10 (Some (40::int))]])) =
     Min (set (map lowest_enrollment (map (\<lambda>i. projr (calculate_school_stats [[replicate 10 (Some 100), replicate 9 (Some 200) @ [None], replicate 10 (Some 300)], [replicate 10 (Some 5), replicate 10 (Some 900), replicate 10 (Some (40::int))]] (int i))) [0..<2])))"
proof -
  let ?A = "[[replicate 10 (Some 100), replicate 9 (Some 200) @ [None], replicate 10 (Some 300)], [replicate 10 (Some 5), replicate 10 (Some 900), replicate 10 (Some (40::int))]]"
  let ?sts = "map (\<lambda>i. projr (calculate_school_stats ?A (int i))) [0..<2]"
  have "\<not> isl (calculate_general_statistics ?A)" by code_simp
  then have g: "calculate_general_statistics ?A = Inr (projr (calculate_general_statistics ?A))"
    by (rule not_isl_Inr_projr)
  have "\<not> isl (calculate_school_stats ?A 0)" by code_simp
  then have s0: "calculate_school_stats ?A (int 0) = Inr (?sts ! 0)"
    unfolding nth_map_upt_2 of_nat_0 by (rule not_isl_Inr_projr)
  have "\<not> isl (calculate_school_stats ?A 1)" by code_simp
  then have s1: "calculate_school_stats ?A (int 1) = Inr (?sts ! 1)"
    unfolding nth_map_upt_2 of_nat_1 by (rule not_isl_Inr_projr)
  have sts: "\<forall>i<length ?A. calculate_school_stats ?A (int i) = Inr (?sts ! i)"
  proof (intro allI impI)
    fix i assume "i < length ?A"
    then have "i = 0 \<or> i = 1" by auto
    then show "calculate_school_stats ?A (int i) = Inr (?sts ! i)" using s0 s1 by blast
  qed
  have len: "length ?sts = length ?A" by simp
  have ne: "?A \<noteq> []" by simp
  note c = general_extremes_of_schools [OF g ne len sts]
  from c show ?thesis .
qed

text \<open>
  C25. The median line and the school statistics agree: for a resolved school whose
  statistics succeed, \<open>median_enrollment_over_500\<close> reports no enrollment over 500
  exactly when the school's highest single-grade enrollment is at most 500.
\<close>

theorem median_none_iff_highest:
  assumes gs: "get_school v = Inr i" and st: "calculate_school_stats arr (int i) = Inr st"
  shows "median_enrollment_over_500 v arr = Inr NoEnrollmentsOver500 \<longleftrightarrow>
         highest_enrollment st \<le> 500"
proof -
  from school_stats_extremes [OF st] have i: "i < length arr"
    and ne: "present (concat (arr ! i)) \<noteq> []"
    and hi: "highest_enrollment st = Max (set (present (concat (arr ! i))))" by blast+
  have "over_500 (arr ! i) = [] \<longleftrightarrow> highest_enrollment st \<le> 500"
    using ne by (simp add: hi over_500_Nil_iff Max_le_iff)
  then show ?thesis
    by (simp add: median_enrollment_over_500_idx [OF gs i])
qed

theorem median_none_iff_highest_witness:
  "median_enrollment_over_500 (PyInt 1224) [[replicate 10 (Some 100), replicate 10 (Some 200), replicate 10 (Some (300::int))]] = Inr NoEnrollmentsOver500 \<and>
   highest_enrollment (projr (calculate_school_stats [[replicate 10 (Some 100), replicate 10 (Some 200), replicate 10 (Some (300::int))]] 0)) \<le> 500"
proof -
  have gs: "get_school (PyInt 1224) = Inr 0"
    by (simp add: get_school_def get_school_in_def school_codes_def)
  have "\<not> isl (calculate_school_stats [[replicate 10 (Some 100), replicate 10 (Some 200), replicate 10 (Some (300::int))]] 0)" by code_simp
  then have st: "calculate_school_stats [[replicate 10 (Some 100), replicate 10 (Some 200), replicate 10 (Some (300::int))]] (int 0) = Inr (projr (calculate_school_stats [[replicate 10 (Some 100), replicate 10 (Some 200), replicate 10 (Some (300::int))]] 0))"
    unfolding of_nat_0 by (rule not_isl_Inr_projr)
  have m: "median_enrollment_over_500 (PyInt 1224) [[replicate 10 (Some 100), replicate 10 (Some 200), replicate 10 (Some (300::int))]] = Inr NoEnrollmentsOver500" by code_simp
  from median_none_iff_highest [OF gs st] m show ?thesis by simp
qed

text \<open>
  C26. On the program's (20, 3, 10) shape, when the general statistics and every school's
  statistics succeed, the total graduating class of 2022 is the sum over the schools of
  their \<open>yearly_enrollments['2022']\<close> entries.
\<close>

theorem total_2022_of_schools:
  assumes sh: "has_shape num_schools num_grades num_years arr"
    and g: "calculate_general_statistics arr = Inr g"
    and len: "length sts = num_schools"
    and sts: "\<forall>i<num_schools. calculate_school_stats arr (int i) = Inr (sts ! i)"
  shows "total_enrollment_2022 g = sum_list (map (\<lambda>st. the (map_of (yearly_enrollments st) ''2022'')) sts)"
proof -
  have y9: "years ! 9 = ''2022''" by (simp add: years_def)
  have la: "length arr = num_schools" using sh by (simp add: has_shape_def)
  have "map (\<lambda>st. the (map_of (yearly_enrollments st) ''2022'')) sts =
        map (\<lambda>se. nansum (map (\<lambda>row. row ! 9) se)) arr"
  proof (rule nth_equalityI)
    show "length (map (\<lambda>st. the (map_of (yearly_enrollments st) ''2022'')) sts) =
          length (map (\<lambda>se. nansum (map (\<lambda>row. row ! 9) se)) arr)" using len la by simp
    fix i assume "i < length (map (\<lambda>st. the (map_of (yearly_enrollments st) ''2022'')) sts)"
    then have i: "i < num_schools" using len by simp
    show "map (\<lambda>st. the (map_of (yearly_enrollments st) ''2022'')) sts ! i =
          map (\<lambda>se. nansum (map (\<lambda>row. row ! 9) se)) arr ! i"
      using school_stats_yearly_lookup [of arr i "sts ! i" 9] sts i len la y9 by simp
  qed
  moreover have "g = general_stats_spec num_years arr"
    using calculate_general_statistics_shaped_gen [OF sh] g by (simp split: if_splits)
  ultimately show ?thesis
    using nansum_concat_map [of "\<lambda>row. row ! 9" arr]
    by (simp add: general_stats_spec_def Let_def nansum_def)
qed

theorem total_2022_of_schools_witness:
  "total_enrollment_2022 (projr (calculate_general_statistics (replicate 20 [replicate 10 (Some 100), Some 50 # replicate 9 (Some 60), replicate 9 (Some 7) @ [None :: int option]]))) =
   sum_list (map (\<lambda>st. the (map_of (yearly_enrollments st) ''2022''))
     (map (\<lambda>i. projr (calculate_school_stats (replicate 20 [replicate 10 (Some 100), Some 50 # replicate 9 (Some 60), replicate 9 (Some 7) @ [None :: int option]]) (int i))) [0..<20]))"
proof -
  let ?A = "replicate 20 [replicate 10 (Some 100), Some 50 # replicate 9 (Some 60), replicate 9 (Some 7) @ [None :: int option]]"
  let ?sts = "map (\<lambda>i. projr (calculate_school_stats ?A (int i))) [0..<20]"
  have sh: "has_shape num_schools num_grades num_years ?A" by (simp add: has_shape_def)
  have "\<not> isl (calculate_general_statistics ?A)" by code_simp
  then have g: "calculate_general_statistics ?A = Inr (projr (calculate_general_statistics ?A))"
    by (rule not_isl_Inr_projr)
  have len: "length ?sts = num_schools" by simp
  have one: "\<not> isl (calculate_school_stats [[replicate 10 (Some 100), Some 50 # replicate 9 (Some 60), replicate 9 (Some 7) @ [None :: int option]]] 0)" by code_simp
  have sts: "\<forall>i<num_schools. calculate_school_stats ?A (int i) = Inr (?sts ! i)"
  proof (intro allI impI)
    fix i assume "i < num_schools"
    then have i: "i < 20" by simp
    have "\<not> isl (calculate_school_stats ?A (int i))"
      using one by (simp only: calculate_school_stats_replicate [OF i] not_False_eq_True)
    then have "calculate_school_stats ?A (int i) = Inr (projr (calculate_school_stats ?A (int i)))"
      by (rule not_isl_Inr_projr)
    then show "calculate_school_stats ?A (int i) = Inr (?sts ! i)" using i by simp
  qed
  from total_2022_of_schools [OF sh g len sts] show ?thesis .
qed

end
